theory Spec2Isabelle
  imports Complex_Main "HOL-Library.Multiset" "HOL-Library.List_Lexorder"
    "HOL-Library.Word"
begin

section \<open>JavaScript numbers\<close>

text \<open>
  A JavaScript \<^verbatim>\<open>number\<close> is modelled as a real: arithmetic is exact, the rounding of
  IEEE doubles is not modelled. The one place where the code can leave the finite
  numbers is the division \<^verbatim>\<open>accuracy / metersPerPixel\<close>, so the quotient has its own
  type with the two infinities and NaN, and \<^verbatim>\<open>Math.max\<close>, \<^verbatim>\<open>Math.min\<close> are given on it
  with a finite second argument, as the code calls them.
\<close>

datatype jsnum = Num real | PosInf | NegInf | NaN

definition js_div :: "real \<Rightarrow> real \<Rightarrow> jsnum" where
  "js_div a b =
     (if b \<noteq> 0 then Num (a / b)
      else if 0 < a then PosInf
      else if a < 0 then NegInf
      else NaN)"

fun js_max :: "jsnum \<Rightarrow> real \<Rightarrow> jsnum" where
  "js_max (Num x) c = Num (max x c)"
| "js_max PosInf c = PosInf"
| "js_max NegInf c = Num c"
| "js_max NaN c = NaN"

fun js_min :: "jsnum \<Rightarrow> real \<Rightarrow> jsnum" where
  "js_min (Num x) c = Num (min x c)"
| "js_min PosInf c = Num c"
| "js_min NegInf c = NegInf"
| "js_min NaN c = NaN"

section \<open>The renderer, as far as the map controls use it\<close>

text \<open>
  The rendering engine is an external collaborator. The model keeps what the controls
  read and write: the zoom, the named sources, the layers in paint order (bottom
  first) with their visibility and numeric paint properties, and the camera animations
  that were requested. Source ids and layer ids are keys of the style, so removing an
  id removes every entry that carries it and adding an id that exists adds nothing.
\<close>

record feature =
  coordinates :: "real \<times> real"
  accuracyRadius :: "jsnum option"

datatype source_spec =
    RasterSource string nat
  | VectorSource string
  | GeoJSONSource feature

record layer =
  layer_id :: string
  layer_source :: "string option"
  visible :: bool
  paint :: "string \<rightharpoonup> real"

type_synonym bounds = "real \<times> real \<times> real \<times> real"

datatype camera_cmd =
    FlyTo "real \<times> real" real nat
  | FitBounds bounds nat nat

record renderer =
  center :: "real \<times> real"
  zoom :: real
  sources :: "(string \<times> source_spec) list"
  layers :: "layer list"
  camera :: "camera_cmd list"

definition getSource :: "renderer \<Rightarrow> string \<Rightarrow> source_spec option" where
  "getSource m sid = map_of (sources m) sid"

definition getLayer :: "renderer \<Rightarrow> string \<Rightarrow> layer option" where
  "getLayer m lid = find (\<lambda>l. layer_id l = lid) (layers m)"

definition removeSource :: "string \<Rightarrow> renderer \<Rightarrow> renderer" where
  "removeSource sid m = m\<lparr>sources := filter (\<lambda>(k, v). k \<noteq> sid) (sources m)\<rparr>"

definition removeLayer :: "string \<Rightarrow> renderer \<Rightarrow> renderer" where
  "removeLayer lid m = m\<lparr>layers := filter (\<lambda>l. layer_id l \<noteq> lid) (layers m)\<rparr>"

definition addSource :: "string \<Rightarrow> source_spec \<Rightarrow> renderer \<Rightarrow> renderer" where
  "addSource sid spec m =
     (if map_of (sources m) sid = None then m\<lparr>sources := sources m @ [(sid, spec)]\<rparr> else m)"

fun insert_before :: "string \<Rightarrow> layer \<Rightarrow> layer list \<Rightarrow> layer list" where
  "insert_before b l [] = []"
| "insert_before b l (x # xs) =
     (if layer_id x = b then l # x # xs else x # insert_before b l xs)"

definition addLayer :: "layer \<Rightarrow> string option \<Rightarrow> renderer \<Rightarrow> renderer" where
  "addLayer l before m =
     (if find (\<lambda>x. layer_id x = layer_id l) (layers m) \<noteq> None then m
      else case before of
             None \<Rightarrow> m\<lparr>layers := layers m @ [l]\<rparr>
           | Some b \<Rightarrow> m\<lparr>layers := insert_before b l (layers m)\<rparr>)"

definition setData :: "string \<Rightarrow> feature \<Rightarrow> renderer \<Rightarrow> renderer" where
  "setData sid f m =
     m\<lparr>sources := map (\<lambda>(k, v). if k = sid then (k, GeoJSONSource f) else (k, v)) (sources m)\<rparr>"

definition setLayoutProperty_visibility :: "string \<Rightarrow> bool \<Rightarrow> renderer \<Rightarrow> renderer" where
  "setLayoutProperty_visibility lid v m =
     m\<lparr>layers := map (\<lambda>l. if layer_id l = lid then l\<lparr>visible := v\<rparr> else l) (layers m)\<rparr>"

definition setPaintProperty :: "string \<Rightarrow> string \<Rightarrow> real \<Rightarrow> renderer \<Rightarrow> renderer" where
  "setPaintProperty lid prop v m =
     m\<lparr>layers := map (\<lambda>l. if layer_id l = lid then l\<lparr>paint := (paint l)(prop \<mapsto> v)\<rparr> else l)
                     (layers m)\<rparr>"


text \<open>
  \<^verbatim>\<open>ids.forEach(id => { if (map.getLayer(id)) map.setLayoutProperty(id, 'visibility', v) })\<close>
\<close>

definition setVisibilityOfExisting :: "string list \<Rightarrow> bool \<Rightarrow> renderer \<Rightarrow> renderer" where
  "setVisibilityOfExisting ids v m =
     foldl (\<lambda>m' lid. if getLayer m' lid \<noteq> None then setLayoutProperty_visibility lid v m' else m')
           m ids"

definition locationLayers :: "string list" where
  "locationLayers = [''user-location-accuracy'', ''user-location-pulse'', ''user-location-dot'']"

section \<open>The pulsing halo\<close>

text \<open>
  \<^verbatim>\<open>animatePulse\<close> of the in-process map and of the injected page are the same code: the
  radius starts at 18 with direction 1, moves by \<open>direction * 0.3\<close> on each frame, and
  the direction is set to -1 once the radius is at least 24 and to 1 once it is at
  most 16. The new radius and the opacity computed from it are written to the layer
  \<^verbatim>\<open>user-location-pulse\<close> when that layer exists.
\<close>

record pulse =
  pulseR :: real
  pulseDir :: real

definition pulse_init :: pulse where
  "pulse_init = \<lparr>pulseR = 18, pulseDir = 1\<rparr>"

definition pulse_opacity :: "real \<Rightarrow> real" where
  "pulse_opacity r = 0.4 - ((r - 16) / (24 - 16)) * 0.3"

definition pulse_step :: "pulse \<Rightarrow> pulse" where
  "pulse_step p =
     (let r = pulseR p + pulseDir p * 0.3;
          d1 = (if r \<ge> 24 then - 1 else pulseDir p);
          d2 = (if r \<le> 16 then 1 else d1)
      in \<lparr>pulseR = r, pulseDir = d2\<rparr>)"

definition animatePulse :: "pulse \<times> renderer \<Rightarrow> pulse \<times> renderer" where
  "animatePulse = (\<lambda>(p, m).
     (let p' = pulse_step p;
          m' = (if getLayer m ''user-location-pulse'' \<noteq> None
                then setPaintProperty ''user-location-pulse'' ''circle-opacity''
                       (pulse_opacity (pulseR p'))
                       (setPaintProperty ''user-location-pulse'' ''circle-radius'' (pulseR p') m)
                else m)
      in (p', m')))"



section \<open>The in-process map control\<close>

text \<open>
  The style the map is created with, and the location source and layers that the
  \<^verbatim>\<open>load\<close> handler adds. Of the paint properties only the numeric literals are kept;
  colours and zoom expressions play no part in what follows.
\<close>

definition mk_layer :: "string \<Rightarrow> string option \<Rightarrow> bool \<Rightarrow> (string \<times> real) list \<Rightarrow> layer" where
  "mk_layer lid src vis ps = \<lparr>layer_id = lid, layer_source = src, visible = vis, paint = map_of ps\<rparr>"

definition DEFAULT_CENTER :: "real \<times> real" where
  "DEFAULT_CENTER = (139.6917, 35.6895)"

definition DEFAULT_ZOOM :: real where
  "DEFAULT_ZOOM = 13"

definition DEFAULT_TILE_URL :: string where
  "DEFAULT_TILE_URL = ''https://tile.openstreetmap.org/{z}/{x}/{y}.png''"

definition PMTILES_URL :: string where
  "PMTILES_URL = ''https://build.protomaps.com/20240529.pmtiles''"

definition PMTILES_LAYER_IDS :: "string list" where
  "PMTILES_LAYER_IDS =
     [''pm-background'', ''pm-earth'', ''pm-water'', ''pm-landuse-park'',
      ''pm-landuse-residential'', ''pm-buildings'', ''pm-roads-minor'',
      ''pm-roads-major'', ''pm-roads-highway'', ''pm-transit-rail'',
      ''pm-boundaries'', ''pm-labels-places'', ''pm-labels-roads'']"

definition pmtilesLayers :: "layer list" where
  "pmtilesLayers =
     [mk_layer ''pm-background'' None False [],
      mk_layer ''pm-earth'' (Some ''pmtiles'') False [],
      mk_layer ''pm-water'' (Some ''pmtiles'') False [],
      mk_layer ''pm-landuse-park'' (Some ''pmtiles'') False [],
      mk_layer ''pm-landuse-residential'' (Some ''pmtiles'') False [],
      mk_layer ''pm-buildings'' (Some ''pmtiles'') False [(''fill-opacity'', 0.7)],
      mk_layer ''pm-roads-minor'' (Some ''pmtiles'') False [],
      mk_layer ''pm-roads-major'' (Some ''pmtiles'') False [],
      mk_layer ''pm-roads-highway'' (Some ''pmtiles'') False [],
      mk_layer ''pm-transit-rail'' (Some ''pmtiles'') False [(''line-width'', 1)],
      mk_layer ''pm-boundaries'' (Some ''pmtiles'') False [(''line-width'', 1)],
      mk_layer ''pm-labels-places'' (Some ''pmtiles'') False [(''text-halo-width'', 1.5)],
      mk_layer ''pm-labels-roads'' (Some ''pmtiles'') False [(''text-halo-width'', 1)]]"

definition newMap :: "real \<times> real \<Rightarrow> real \<Rightarrow> string \<Rightarrow> renderer" where
  "newMap c z tileUrl =
     \<lparr>center = c,
      zoom = z,
      sources =
        [(''osm-raster'', RasterSource tileUrl 256),
         (''pmtiles'', VectorSource (''pmtiles://'' @ PMTILES_URL)),
         (''gsi-pale'', RasterSource ''https://cyberjapandata.gsi.go.jp/xyz/pale/{z}/{x}/{y}.png'' 256),
         (''gsi-photo'', RasterSource ''https://cyberjapandata.gsi.go.jp/xyz/seamlessphoto/{z}/{x}/{y}.jpg'' 256),
         (''gsi-hillshade'', RasterSource ''https://cyberjapandata.gsi.go.jp/xyz/hillshademap/{z}/{x}/{y}.png'' 256)],
      layers =
        [mk_layer ''osm-raster-layer'' (Some ''osm-raster'') True [],
         mk_layer ''gsi-pale-layer'' (Some ''gsi-pale'') False [],
         mk_layer ''gsi-photo-layer'' (Some ''gsi-photo'') False [],
         mk_layer ''gsi-hillshade-layer'' (Some ''gsi-hillshade'') False []] @ pmtilesLayers,
      camera = []\<rparr>"

definition addLocationLayers :: "renderer \<Rightarrow> renderer" where
  "addLocationLayers m =
     addLayer (mk_layer ''user-location-dot'' (Some ''user-location'') False
                 [(''circle-radius'', 8), (''circle-stroke-width'', 3)]) None
       (addLayer (mk_layer ''user-location-pulse'' (Some ''user-location'') False
                    [(''circle-radius'', 18)]) None
          (addLayer (mk_layer ''user-location-accuracy'' (Some ''user-location'') False
                       [(''circle-stroke-width'', 1)]) None
             (addSource ''user-location''
                (GeoJSONSource \<lparr>coordinates = (0, 0), accuracyRadius = None\<rparr>) m)))"

text \<open>The map once its \<^verbatim>\<open>load\<close> event has run, with the default options.\<close>

definition loadedMap :: renderer where
  "loadedMap = addLocationLayers (newMap DEFAULT_CENTER DEFAULT_ZOOM DEFAULT_TILE_URL)"

text \<open>
  \<^verbatim>\<open>updateLocation\<close>. The handle's \<^verbatim>\<open>mapRef.current\<close> is \<open>None\<close> before the map
  exists and after it is disposed. \<^verbatim>\<open>accuracy ? ... : 0\<close> takes the first branch
  exactly when the accuracy is neither \<^verbatim>\<open>null\<close> nor zero.
\<close>

definition metersPerPixel :: "real \<Rightarrow> real \<Rightarrow> real" where
  "metersPerPixel lat z = (156543.03392 * cos ((lat * pi) / 180)) / (2 powr z)"

definition accuracyRadiusOf :: "real option \<Rightarrow> real \<Rightarrow> jsnum" where
  "accuracyRadiusOf accuracy mpp =
     (case accuracy of
        None \<Rightarrow> Num 0
      | Some a \<Rightarrow> if a \<noteq> 0 then js_min (js_max (js_div a mpp) 10) 100 else Num 0)"

definition updateLocation :: "real \<Rightarrow> real \<Rightarrow> real option \<Rightarrow> renderer option \<Rightarrow> renderer option" where
  "updateLocation lng lat accuracy mapRef =
     (case mapRef of
        None \<Rightarrow> None
      | Some m \<Rightarrow>
          (case getSource m ''user-location'' of
             None \<Rightarrow> Some m
           | Some src \<Rightarrow>
               Some (setVisibilityOfExisting locationLayers True
                      (setData ''user-location''
                         \<lparr>coordinates = (lng, lat),
                          accuracyRadius =
                            Some (accuracyRadiusOf accuracy (metersPerPixel lat (zoom m)))\<rparr> m))))"

definition flyToLocation :: "real \<Rightarrow> real \<Rightarrow> real option \<Rightarrow> renderer option \<Rightarrow> renderer option" where
  "flyToLocation lng lat zoomLevel mapRef =
     map_option
       (\<lambda>m. m\<lparr>camera := camera m @
                 [FlyTo (lng, lat) (case zoomLevel of None \<Rightarrow> 16 | Some z \<Rightarrow> z) 1500]\<rparr>)
       mapRef"

definition hideLocation :: "renderer option \<Rightarrow> renderer option" where
  "hideLocation mapRef = map_option (setVisibilityOfExisting locationLayers False) mapRef"

definition allRasterLayers :: "string list" where
  "allRasterLayers = [''osm-raster-layer'', ''gsi-pale-layer'', ''gsi-photo-layer'', ''gsi-hillshade-layer'']"

definition layerMap :: "string \<rightharpoonup> string" where
  "layerMap = map_of
     [(''osm'', ''osm-raster-layer''),
      (''gsi-pale'', ''gsi-pale-layer''),
      (''gsi-photo'', ''gsi-photo-layer''),
      (''gsi-hillshade'', ''gsi-hillshade-layer'')]"

text \<open>
  \<^verbatim>\<open>layerMap\<close> is an object literal, so \<^verbatim>\<open>layerMap[source]\<close> also finds the members it
  inherits from \<^verbatim>\<open>Object.prototype\<close>. For such a name the lookup gives a function or an
  object, the fallback to \<^verbatim>\<open>osm-raster-layer\<close> is not taken, and \<^verbatim>\<open>getLayer\<close> finds no
  layer of that id: no layer is shown.
\<close>

definition objectPrototypeMembers :: "string list" where
  "objectPrototypeMembers =
     [''constructor'', ''__proto__'', ''hasOwnProperty'', ''isPrototypeOf'',
      ''propertyIsEnumerable'', ''toLocaleString'', ''toString'', ''valueOf'',
      ''__defineGetter__'', ''__defineSetter__'', ''__lookupGetter__'', ''__lookupSetter__'']"

definition setTileSourceOn :: "string list \<Rightarrow> string \<Rightarrow> renderer \<Rightarrow> renderer" where
  "setTileSourceOn pmIds source m =
     (let m1 = setVisibilityOfExisting allRasterLayers False m;
          m2 = setVisibilityOfExisting pmIds False m1
      in if source = ''pmtiles'' then setVisibilityOfExisting pmIds True m2
         else case layerMap source of
                Some l \<Rightarrow> setVisibilityOfExisting [l] True m2
              | None \<Rightarrow>
                  if source \<in> set objectPrototypeMembers then m2
                  else setVisibilityOfExisting [''osm-raster-layer''] True m2)"

definition setTileSource :: "string \<Rightarrow> renderer option \<Rightarrow> renderer option" where
  "setTileSource source mapRef = map_option (setTileSourceOn PMTILES_LAYER_IDS source) mapRef"

text \<open>
  \<^verbatim>\<open>addRasterOverlay\<close>. Reading the header of the payload and the three renderer calls
  inside the \<^verbatim>\<open>try\<close> block can throw; whether they do is decided outside this code, so
  it is an input: \<open>getHeader\<close> gives \<open>None\<close> for a payload whose header cannot be
  read, and a flag says for each renderer call whether it throws. The \<^verbatim>\<open>catch\<close> block
  logs and returns \<^verbatim>\<open>null\<close>; the renderer stays as the last completed call left it.
\<close>

record header =
  minLon :: real
  minLat :: real
  maxLon :: real
  maxLat :: real

record overlay_env =
  getHeader :: "string \<Rightarrow> header option"
  addSource_throws :: bool
  addLayer_throws :: bool
  fitBounds_throws :: bool

record overlay_descriptor =
  od_id :: string
  od_name :: string
  od_bounds :: bounds
  od_opacity :: real

definition overlaySourceId :: "string \<Rightarrow> string" where
  "overlaySourceId oid = ''overlay-'' @ oid"

definition overlayLayerId :: "string \<Rightarrow> string" where
  "overlayLayerId oid = ''overlay-'' @ oid @ ''-layer''"

definition addRasterOverlay ::
  "overlay_env \<Rightarrow> string \<Rightarrow> string \<Rightarrow> renderer option \<Rightarrow> overlay_descriptor option \<times> renderer option"
where
  "addRasterOverlay env oid pmtilesUrl mapRef =
     (case mapRef of
        None \<Rightarrow> (None, None)
      | Some m \<Rightarrow>
          (case getHeader env pmtilesUrl of
             None \<Rightarrow> (None, Some m)
           | Some h \<Rightarrow>
               (let bnds = (minLon h, minLat h, maxLon h, maxLat h);
                    sourceId = overlaySourceId oid;
                    layerId = overlayLayerId oid;
                    m1 = (if getLayer m layerId \<noteq> None then removeLayer layerId m else m);
                    m2 = (if getSource m1 sourceId \<noteq> None then removeSource sourceId m1 else m1)
                in if addSource_throws env then (None, Some m2)
                   else
                     (let m3 = addSource sourceId (RasterSource (''pmtiles://'' @ pmtilesUrl) 256) m2;
                          beforeLayerId =
                            (if getLayer m3 ''user-location-accuracy'' \<noteq> None
                             then Some ''user-location-accuracy'' else None)
                      in if addLayer_throws env then (None, Some m3)
                         else
                           (let m4 = addLayer (mk_layer layerId (Some sourceId) True
                                                 [(''raster-opacity'', 0.8)]) beforeLayerId m3
                            in if fitBounds_throws env then (None, Some m4)
                               else (Some \<lparr>od_id = oid, od_name = oid, od_bounds = bnds,
                                           od_opacity = 0.8\<rparr>,
                                     Some (m4\<lparr>camera := camera m4 @ [FitBounds bnds 20 1500]\<rparr>)))))))"

text \<open>
  The renderer at the three points where \<open>addRasterOverlay\<close> can stop: after the
  removal of an earlier source and layer of the id, after \<^verbatim>\<open>addSource\<close>, after
  \<^verbatim>\<open>addLayer\<close>.
\<close>

definition cleared :: "string \<Rightarrow> renderer \<Rightarrow> renderer" where
  "cleared oid m =
     (let m1 = (if getLayer m (overlayLayerId oid) \<noteq> None then removeLayer (overlayLayerId oid) m else m)
      in if getSource m1 (overlaySourceId oid) \<noteq> None then removeSource (overlaySourceId oid) m1 else m1)"

definition withSource :: "string \<Rightarrow> string \<Rightarrow> renderer \<Rightarrow> renderer" where
  "withSource oid url m =
     addSource (overlaySourceId oid) (RasterSource (''pmtiles://'' @ url) 256) (cleared oid m)"

definition withLayer :: "string \<Rightarrow> string \<Rightarrow> renderer \<Rightarrow> renderer" where
  "withLayer oid url m =
     addLayer (mk_layer (overlayLayerId oid) (Some (overlaySourceId oid)) True [(''raster-opacity'', 0.8)])
       (if getLayer (withSource oid url m) ''user-location-accuracy'' \<noteq> None
        then Some ''user-location-accuracy'' else None)
       (withSource oid url m)"

text \<open>Whether the renderer of a handle has a source, a layer, for an overlay id.\<close>

definition hasOverlaySource :: "renderer option \<Rightarrow> string \<Rightarrow> bool" where
  "hasOverlaySource mapRef oid =
     (case mapRef of None \<Rightarrow> False | Some m \<Rightarrow> getSource m (overlaySourceId oid) \<noteq> None)"

definition hasOverlayLayer :: "renderer option \<Rightarrow> string \<Rightarrow> bool" where
  "hasOverlayLayer mapRef oid =
     (case mapRef of None \<Rightarrow> False | Some m \<Rightarrow> getLayer m (overlayLayerId oid) \<noteq> None)"

text \<open>
  Sample inputs: a header that reads well, an environment without faults, one in which
  \<^verbatim>\<open>addLayer\<close> throws, and one in which no header can be read.
\<close>

definition sampleHeader :: header where
  "sampleHeader = \<lparr>minLon = 139, minLat = 35, maxLon = 140, maxLat = 36\<rparr>"

definition goodEnv :: overlay_env where
  "goodEnv = \<lparr>getHeader = (\<lambda>url. Some sampleHeader), addSource_throws = False,
               addLayer_throws = False, fitBounds_throws = False\<rparr>"

definition addLayerFaultEnv :: overlay_env where
  "addLayerFaultEnv = goodEnv\<lparr>addLayer_throws := True\<rparr>"

definition noHeaderEnv :: overlay_env where
  "noHeaderEnv = goodEnv\<lparr>getHeader := (\<lambda>url. None)\<rparr>"

definition removeRasterOverlay :: "string \<Rightarrow> renderer option \<Rightarrow> renderer option" where
  "removeRasterOverlay oid mapRef =
     map_option
       (\<lambda>m. let m1 = (if getLayer m (overlayLayerId oid) \<noteq> None
                       then removeLayer (overlayLayerId oid) m else m)
             in if getSource m1 (overlaySourceId oid) \<noteq> None
                then removeSource (overlaySourceId oid) m1 else m1)
       mapRef"

definition setOverlayOpacity :: "string \<Rightarrow> real \<Rightarrow> renderer option \<Rightarrow> renderer option" where
  "setOverlayOpacity oid opacity mapRef =
     map_option
       (\<lambda>m. if getLayer m (overlayLayerId oid) \<noteq> None
             then setPaintProperty (overlayLayerId oid) ''raster-opacity'' opacity m else m)
       mapRef"

section \<open>The injected page of the bridged map control\<close>

text \<open>
  In the bridged variant the renderer lives in a page inside a WebView. The host sends
  commands \<^verbatim>\<open>{type, ...args}\<close> by script injection; the page answers with messages
  \<^verbatim>\<open>{type, ...payload}\<close> through \<^verbatim>\<open>postMessage\<close>. A command is a constructor per
  \<^verbatim>\<open>type\<close> that the host can send; a message is what \<^verbatim>\<open>JSON.parse\<close> of the received
  text gives, \<open>Malformed\<close> when it throws or the value has no readable \<^verbatim>\<open>type\<close>.
\<close>

datatype command =
    UpdateLocation real real real
  | FlyToLocation real real real
  | HideLocation
  | SetTileSource string
  | AddRasterOverlay string string
  | RemoveRasterOverlay string
  | SetOverlayOpacity string real

datatype message =
    Malformed
  | MapMoved "real \<times> real" real
  | MapLoaded
  | OverlayAdded "overlay_descriptor option"
  | OtherMessage string

record page =
  page_map :: renderer
  currentTileSource :: string
  page_pulse :: pulse
  hasReactNativeWebView :: bool
  posted :: "message list"

definition newPage :: "real \<times> real \<Rightarrow> real \<Rightarrow> string \<Rightarrow> bool \<Rightarrow> page" where
  "newPage c z tileUrl rn =
     \<lparr>page_map = newMap c z tileUrl, currentTileSource = ''osm'', page_pulse = pulse_init,
      hasReactNativeWebView = rn, posted = []\<rparr>"

definition postMessage :: "message \<Rightarrow> page \<Rightarrow> page" where
  "postMessage msg pg = (if hasReactNativeWebView pg then pg\<lparr>posted := posted pg @ [msg]\<rparr> else pg)"

definition page_setTileSource :: "string \<Rightarrow> page \<Rightarrow> page" where
  "page_setTileSource source pg =
     pg\<lparr>page_map := setTileSourceOn (map layer_id pmtilesLayers) source (page_map pg),
        currentTileSource := source\<rparr>"

definition setLocationLayersVisibility :: "bool \<Rightarrow> page \<Rightarrow> page" where
  "setLocationLayersVisibility v pg =
     pg\<lparr>page_map := setVisibilityOfExisting locationLayers v (page_map pg)\<rparr>"

definition updateUserLocation :: "real \<Rightarrow> real \<Rightarrow> real \<Rightarrow> page \<Rightarrow> page" where
  "updateUserLocation lng lat accuracy pg =
     (case getSource (page_map pg) ''user-location'' of
        None \<Rightarrow> pg
      | Some src \<Rightarrow>
          setLocationLayersVisibility True
            (pg\<lparr>page_map :=
                  setData ''user-location''
                    \<lparr>coordinates = (lng, lat),
                     accuracyRadius =
                       Some (accuracyRadiusOf (Some accuracy)
                               (metersPerPixel lat (zoom (page_map pg))))\<rparr>
                    (page_map pg)\<rparr>))"

text \<open>
  \<^verbatim>\<open>handleCommand\<close> is a \<^verbatim>\<open>switch\<close> on \<^verbatim>\<open>cmd.type\<close> with four cases and no default.
\<close>

fun handleCommand :: "command \<Rightarrow> page \<Rightarrow> page" where
  "handleCommand (UpdateLocation lng lat accuracy) pg = updateUserLocation lng lat accuracy pg"
| "handleCommand (FlyToLocation lng lat z) pg =
     pg\<lparr>page_map := (page_map pg)\<lparr>camera := camera (page_map pg) @
                         [FlyTo (lng, lat) (if z = 0 then 16 else z) 1500]\<rparr>\<rparr>"
| "handleCommand HideLocation pg = setLocationLayersVisibility False pg"
| "handleCommand (SetTileSource source) pg = page_setTileSource source pg"
| "handleCommand (AddRasterOverlay oid url) pg = pg"
| "handleCommand (RemoveRasterOverlay oid) pg = pg"
| "handleCommand (SetOverlayOpacity oid opacity) pg = pg"

text \<open>
  The page's own events: the map's \<^verbatim>\<open>load\<close>, which adds the location layers and reports
  \<^verbatim>\<open>mapLoaded\<close>; an animation frame; and \<^verbatim>\<open>moveend\<close>, after which the page reports the
  centre and zoom the renderer arrived at.
\<close>

datatype page_event = PageLoad | PageFrame | PageMoveEnd "real \<times> real" real

fun page_on :: "page_event \<Rightarrow> page \<Rightarrow> page" where
  "page_on PageLoad pg =
     (let pg1 = postMessage MapLoaded (pg\<lparr>page_map := addLocationLayers (page_map pg)\<rparr>);
          (p, m) = animatePulse (page_pulse pg1, page_map pg1)
      in pg1\<lparr>page_pulse := p, page_map := m\<rparr>)"
| "page_on PageFrame pg =
     (let (p, m) = animatePulse (page_pulse pg, page_map pg)
      in pg\<lparr>page_pulse := p, page_map := m\<rparr>)"
| "page_on (PageMoveEnd c z) pg =
     postMessage (MapMoved c z) (pg\<lparr>page_map := (page_map pg)\<lparr>center := c, zoom := z\<rparr>\<rparr>)"

section \<open>The host side of the bridge\<close>

text \<open>
  The host keeps one slot, \<^verbatim>\<open>overlayResolveRef\<close>, for the resolver of the promise that
  \<^verbatim>\<open>addRasterOverlay\<close> returned last. Promises are numbered in the order of the calls;
  a promise is pending (\<open>None\<close>) or resolved with a descriptor or \<^verbatim>\<open>null\<close>, and resolving
  a promise a second time changes nothing, as in JavaScript. Time is a clock in
  milliseconds; \<^verbatim>\<open>setTimeout(f, 10000)\<close> records the time at which \<open>f\<close> is due, and
  letting time pass runs the callbacks that have become due, oldest first.
\<close>

datatype notification = NotifyMoved "real \<times> real" real | NotifyLoaded

record bridge =
  webViewMounted :: bool
  hasOnMapMoved :: bool
  hasOnMapLoaded :: bool
  overlayResolveRef :: "nat option"
  promises :: "overlay_descriptor option option list"
  timers :: "(nat \<times> nat) list"
  clock :: nat
  injected :: "command list"
  notified :: "notification list"

definition newBridge :: "bool \<Rightarrow> bool \<Rightarrow> bool \<Rightarrow> bridge" where
  "newBridge mounted moved loaded =
     \<lparr>webViewMounted = mounted, hasOnMapMoved = moved, hasOnMapLoaded = loaded,
      overlayResolveRef = None, promises = [], timers = [], clock = 0, injected = [],
      notified = []\<rparr>"

definition sendCommand :: "command \<Rightarrow> bridge \<Rightarrow> bridge" where
  "sendCommand cmd b = (if webViewMounted b then b\<lparr>injected := injected b @ [cmd]\<rparr> else b)"

definition resolve :: "nat \<Rightarrow> overlay_descriptor option \<Rightarrow> bridge \<Rightarrow> bridge" where
  "resolve p v b =
     (if p < length (promises b) \<and> promises b ! p = None
      then b\<lparr>promises := (promises b)[p := Some v]\<rparr> else b)"

definition bridge_updateLocation :: "real \<Rightarrow> real \<Rightarrow> real option \<Rightarrow> bridge \<Rightarrow> bridge" where
  "bridge_updateLocation lng lat accuracy b =
     sendCommand (UpdateLocation lng lat (case accuracy of None \<Rightarrow> 0 | Some a \<Rightarrow> a)) b"

definition bridge_flyToLocation :: "real \<Rightarrow> real \<Rightarrow> real option \<Rightarrow> bridge \<Rightarrow> bridge" where
  "bridge_flyToLocation lng lat z b =
     sendCommand (FlyToLocation lng lat (case z of None \<Rightarrow> 16 | Some z' \<Rightarrow> z')) b"

definition bridge_hideLocation :: "bridge \<Rightarrow> bridge" where
  "bridge_hideLocation b = sendCommand HideLocation b"

definition bridge_setTileSource :: "string \<Rightarrow> bridge \<Rightarrow> bridge" where
  "bridge_setTileSource source b = sendCommand (SetTileSource source) b"

text \<open>
  \<^verbatim>\<open>addRasterOverlay\<close> of the bridge: store the resolver, send the command, start the
  10 s timer. The result is the number of the promise that the caller holds.
\<close>

definition bridge_addRasterOverlay :: "string \<Rightarrow> string \<Rightarrow> bridge \<Rightarrow> nat \<times> bridge" where
  "bridge_addRasterOverlay oid pmtilesUrl b =
     (let p = length (promises b);
          b1 = b\<lparr>promises := promises b @ [None], overlayResolveRef := Some p\<rparr>;
          b2 = sendCommand (AddRasterOverlay oid pmtilesUrl) b1
      in (p, b2\<lparr>timers := timers b2 @ [(clock b2 + 10000, p)]\<rparr>))"

text \<open>The callback given to \<^verbatim>\<open>setTimeout\<close> by the call that returned promise \<open>p\<close>.\<close>

definition onTimeout :: "nat \<Rightarrow> bridge \<Rightarrow> bridge" where
  "onTimeout p b =
     (if overlayResolveRef b \<noteq> None then resolve p None (b\<lparr>overlayResolveRef := None\<rparr>) else b)"

definition bridge_removeRasterOverlay :: "string \<Rightarrow> bridge \<Rightarrow> bridge" where
  "bridge_removeRasterOverlay oid b = sendCommand (RemoveRasterOverlay oid) b"

definition bridge_setOverlayOpacity :: "string \<Rightarrow> real \<Rightarrow> bridge \<Rightarrow> bridge" where
  "bridge_setOverlayOpacity oid opacity b = sendCommand (SetOverlayOpacity oid opacity) b"

fun handleMessage :: "message \<Rightarrow> bridge \<Rightarrow> bridge" where
  "handleMessage Malformed b = b"
| "handleMessage (MapMoved c z) b =
     (if hasOnMapMoved b then b\<lparr>notified := notified b @ [NotifyMoved c z]\<rparr> else b)"
| "handleMessage MapLoaded b =
     (if hasOnMapLoaded b then b\<lparr>notified := notified b @ [NotifyLoaded]\<rparr> else b)"
| "handleMessage (OverlayAdded info) b =
     (case overlayResolveRef b of
        None \<Rightarrow> b
      | Some p \<Rightarrow> (resolve p info b)\<lparr>overlayResolveRef := None\<rparr>)"
| "handleMessage (OtherMessage t) b = b"

definition elapse :: "nat \<Rightarrow> bridge \<Rightarrow> bridge" where
  "elapse d b =
     (let t = clock b + d;
          due = filter (\<lambda>(t', p). t' \<le> t) (timers b);
          later = filter (\<lambda>(t', p). t < t') (timers b)
      in foldl (\<lambda>b' (t', p). onTimeout p b') (b\<lparr>clock := t, timers := later\<rparr>) due)"

text \<open>What can happen to the host: a call, the passing of time, a message from the page.\<close>

datatype bridge_event = Call string string | Elapse nat | Receive message

fun bridge_on :: "bridge_event \<Rightarrow> bridge \<Rightarrow> bridge" where
  "bridge_on (Call oid url) b = snd (bridge_addRasterOverlay oid url b)"
| "bridge_on (Elapse d) b = elapse d b"
| "bridge_on (Receive msg) b = handleMessage msg b"

definition bridge_run :: "bridge_event list \<Rightarrow> bridge \<Rightarrow> bridge" where
  "bridge_run es b = foldl (\<lambda>b' e. bridge_on e b') b es"

text \<open>
  For the statements about one call: an event is quiet when it is neither a further
  call nor an \<^verbatim>\<open>overlayAdded\<close> message; \<open>elapsed\<close> is the time that passes in a sequence
  of events. A call is waiting while its resolver is in the slot, its promise is
  pending and its timer is the only one; it has timed out when the slot is empty, the
  promise is resolved with \<^verbatim>\<open>null\<close> and no timer is left.
\<close>

fun is_overlayAdded :: "message \<Rightarrow> bool" where
  "is_overlayAdded (OverlayAdded info) = True"
| "is_overlayAdded msg = False"

fun quiet :: "bridge_event \<Rightarrow> bool" where
  "quiet (Call oid url) = False"
| "quiet (Elapse d) = True"
| "quiet (Receive msg) = (\<not> is_overlayAdded msg)"

fun elapsed :: "bridge_event list \<Rightarrow> nat" where
  "elapsed [] = 0"
| "elapsed (Elapse d # es) = d + elapsed es"
| "elapsed (e # es) = elapsed es"

definition waiting :: "nat \<Rightarrow> nat \<Rightarrow> bridge \<Rightarrow> bool" where
  "waiting p due b \<longleftrightarrow>
     overlayResolveRef b = Some p \<and> p < length (promises b) \<and> promises b ! p = None \<and>
     timers b = [(due, p)] \<and> clock b < due"

definition timed_out :: "nat \<Rightarrow> bridge \<Rightarrow> bool" where
  "timed_out p b \<longleftrightarrow>
     overlayResolveRef b = None \<and> p < length (promises b) \<and> promises b ! p = Some None \<and>
     timers b = []"

text \<open>Sample runs of the host: two calls 5 s apart, and a call after a timed-out one.\<close>

definition sampleInfo :: overlay_descriptor where
  "sampleInfo = \<lparr>od_id = ''a'', od_name = ''a'', od_bounds = (139, 35, 140, 36), od_opacity = 0.8\<rparr>"

definition overlappingCalls :: "bridge_event list" where
  "overlappingCalls =
     [Call ''a'' ''blob:a'', Elapse 5000, Call ''b'' ''blob:b'', Elapse 5000, Elapse 5000,
      Elapse 100000]"

definition lateResponse :: "bridge_event list" where
  "lateResponse =
     [Call ''a'' ''blob:a'', Elapse 10000, Elapse 500, Call ''b'' ''blob:b'', Elapse 500,
      Receive (OverlayAdded (Some sampleInfo))]"

text \<open>
  Host and page together. An injected command runs \<^verbatim>\<open>handleCommand\<close> in the page; what
  the page posts reaches \<^verbatim>\<open>handleMessage\<close> in the order it was posted.
\<close>

record bridged =
  host :: bridge
  webview :: page

definition deliver :: "bridged \<Rightarrow> bridged" where
  "deliver s =
     (let pg = foldl (\<lambda>pg' c. handleCommand c pg') (webview s) (injected (host s));
          b = foldl (\<lambda>b' msg. handleMessage msg b') ((host s)\<lparr>injected := []\<rparr>) (posted pg)
      in \<lparr>host = b, webview = pg\<lparr>posted := []\<rparr>\<rparr>)"

datatype bridged_event =
    HandleUpdateLocation real real "real option"
  | HandleFlyToLocation real real "real option"
  | HandleHideLocation
  | HandleSetTileSource string
  | HandleAddRasterOverlay string string
  | HandleRemoveRasterOverlay string
  | HandleSetOverlayOpacity string real
  | TimePasses nat
  | InPage page_event

fun bridged_on :: "bridged_event \<Rightarrow> bridged \<Rightarrow> bridged" where
  "bridged_on (HandleUpdateLocation lng lat a) s =
     deliver (s\<lparr>host := bridge_updateLocation lng lat a (host s)\<rparr>)"
| "bridged_on (HandleFlyToLocation lng lat z) s =
     deliver (s\<lparr>host := bridge_flyToLocation lng lat z (host s)\<rparr>)"
| "bridged_on HandleHideLocation s = deliver (s\<lparr>host := bridge_hideLocation (host s)\<rparr>)"
| "bridged_on (HandleSetTileSource src) s =
     deliver (s\<lparr>host := bridge_setTileSource src (host s)\<rparr>)"
| "bridged_on (HandleAddRasterOverlay oid url) s =
     deliver (s\<lparr>host := snd (bridge_addRasterOverlay oid url (host s))\<rparr>)"
| "bridged_on (HandleRemoveRasterOverlay oid) s =
     deliver (s\<lparr>host := bridge_removeRasterOverlay oid (host s)\<rparr>)"
| "bridged_on (HandleSetOverlayOpacity oid opacity) s =
     deliver (s\<lparr>host := bridge_setOverlayOpacity oid opacity (host s)\<rparr>)"
| "bridged_on (TimePasses d) s = s\<lparr>host := elapse d (host s)\<rparr>"
| "bridged_on (InPage ev) s = deliver (s\<lparr>webview := page_on ev (webview s)\<rparr>)"

definition bridged_run :: "bridged_event list \<Rightarrow> bridged \<Rightarrow> bridged" where
  "bridged_run es s = foldl (\<lambda>s' e. bridged_on e s') s es"

text \<open>The part of the host state that decides the fate of the promises.\<close>

definition bridge_core :: "bridge \<Rightarrow> nat option \<times> overlay_descriptor option option list \<times> (nat \<times> nat) list \<times> nat" where
  "bridge_core b = (overlayResolveRef b, promises b, timers b, clock b)"

definition null_or_pending :: "bridge \<Rightarrow> bool" where
  "null_or_pending b \<longleftrightarrow> list_all (\<lambda>x. x = None \<or> x = Some None) (promises b)"

text \<open>
  What the promises of the host see of an event of the whole: a call, the passing of
  time, and nothing of the rest.
\<close>

fun host_view :: "bridged_event \<Rightarrow> bridge_event list" where
  "host_view (HandleAddRasterOverlay oid url) = [Call oid url]"
| "host_view (TimePasses d) = [Elapse d]"
| "host_view e = []"

fun is_add :: "bridged_event \<Rightarrow> bool" where
  "is_add (HandleAddRasterOverlay oid url) = True"
| "is_add e = False"

fun time_passed :: "bridged_event list \<Rightarrow> nat" where
  "time_passed [] = 0"
| "time_passed (TimePasses d # es) = d + time_passed es"
| "time_passed (e # es) = time_passed es"

definition newBridged :: bridged where
  "newBridged =
     \<lparr>host = newBridge True True True,
      webview = newPage DEFAULT_CENTER DEFAULT_ZOOM DEFAULT_TILE_URL True\<rparr>"

text \<open>A sample run of host and page: the page loads, then two calls 3 s apart.\<close>

definition twoBridgedCalls :: "bridged_event list" where
  "twoBridgedCalls =
     [InPage PageLoad, HandleAddRasterOverlay ''a'' ''blob:a'', TimePasses 3000,
      HandleAddRasterOverlay ''b'' ''blob:b'', TimePasses 7000, TimePasses 3000,
      TimePasses 60000]"

section \<open>The overlay store\<close>

text \<open>
  The store is an IndexedDB database with two object stores, both keyed by \<^verbatim>\<open>id\<close>. An
  object store holds at most one record per key and lists its records in ascending key
  order; \<^verbatim>\<open>put\<close> inserts a record or replaces the one with the same key.

  IndexedDB compares string keys by their UTF-16 code units. On the UTF-8 bytes of the
  model that order is the order of the bytes, except that a character from U+E000 to
  U+FFFF (first byte EE or EF) comes after every character beyond U+FFFF (first byte
  F0 to F4), whose code units are surrogates. \<open>idb_key\<close> moves these first bytes
  accordingly; the other bytes keep their rank.

  Every operation opens the database first. When that fails the promise is rejected
  and nothing is written; \<open>available\<close> says whether the database can be opened. A
  transaction that fails for another reason (quota, a record that cannot be cloned)
  is not modelled. \<^verbatim>\<open>Date.now()\<close> is the argument \<open>now\<close>, in milliseconds.
\<close>

type_synonym bytes = "8 word list"

definition code_unit_rank :: "char \<Rightarrow> nat" where
  "code_unit_rank c =
     (let b = of_char c :: nat
      in if b = 0xEE \<or> b = 0xEF then b + 0x10
         else if 0xF0 \<le> b then b - 2
         else b)"

definition idb_key :: "string \<Rightarrow> nat list" where
  "idb_key k = map code_unit_rank k"

definition idb_put :: "('r \<Rightarrow> string) \<Rightarrow> 'r \<Rightarrow> 'r list \<Rightarrow> 'r list" where
  "idb_put key r xs = insort_key (\<lambda>x. idb_key (key x)) r (filter (\<lambda>x. key x \<noteq> key r) xs)"

definition idb_get :: "('r \<Rightarrow> string) \<Rightarrow> string \<Rightarrow> 'r list \<Rightarrow> 'r option" where
  "idb_get key k xs = find (\<lambda>x. key x = k) xs"

definition idb_delete :: "('r \<Rightarrow> string) \<Rightarrow> string \<Rightarrow> 'r list \<Rightarrow> 'r list" where
  "idb_delete key k xs = filter (\<lambda>x. key x \<noteq> k) xs"

text \<open>
  A record as it lies in the object store. Records written by an earlier version of
  the application lack the later fields, so these are optional on disk.
\<close>

record raw_overlay =
  ro_id :: string
  ro_filename :: string
  ro_data :: bytes
  ro_opacity :: "real option"
  ro_visible :: "bool option"
  ro_groupId :: "string option"
  ro_timestamp :: "nat option"
  ro_url :: "string option"

record stored_overlay =
  so_id :: string
  so_filename :: string
  so_data :: bytes
  so_opacity :: real
  so_visible :: bool
  so_groupId :: string
  so_timestamp :: nat
  so_url :: "string option"

record overlay_group =
  g_id :: string
  g_name :: string
  g_expanded :: bool
  g_order :: int

record idb =
  available :: bool
  overlay_store :: "raw_overlay list"
  group_store :: "overlay_group list"

datatype 'a outcome = Rejected | Fulfilled 'a

definition normalizeOverlay :: "nat \<Rightarrow> raw_overlay \<Rightarrow> stored_overlay" where
  "normalizeOverlay now r =
     \<lparr>so_id = ro_id r,
      so_filename = ro_filename r,
      so_data = ro_data r,
      so_opacity = (case ro_opacity r of None \<Rightarrow> 0.8 | Some x \<Rightarrow> x),
      so_visible = (case ro_visible r of None \<Rightarrow> True | Some x \<Rightarrow> x),
      so_groupId = (case ro_groupId r of None \<Rightarrow> ''default'' | Some x \<Rightarrow> x),
      so_timestamp = (case ro_timestamp r of None \<Rightarrow> now | Some x \<Rightarrow> x),
      so_url = ro_url r\<rparr>"

text \<open>The object that \<^verbatim>\<open>store.put\<close> receives when a whole \<^verbatim>\<open>StoredOverlay\<close> is written.\<close>

definition as_raw :: "stored_overlay \<Rightarrow> raw_overlay" where
  "as_raw v =
     \<lparr>ro_id = so_id v, ro_filename = so_filename v, ro_data = so_data v,
      ro_opacity = Some (so_opacity v), ro_visible = Some (so_visible v),
      ro_groupId = Some (so_groupId v), ro_timestamp = Some (so_timestamp v),
      ro_url = so_url v\<rparr>"

definition saveOverlay ::
  "nat \<Rightarrow> string \<Rightarrow> string \<Rightarrow> bytes \<Rightarrow> real \<Rightarrow> bool \<Rightarrow> string \<Rightarrow> idb \<Rightarrow> unit outcome \<times> idb"
where
  "saveOverlay now oid filename dat opacity vis groupId d =
     (if \<not> available d then (Rejected, d)
      else (Fulfilled (),
            d\<lparr>overlay_store :=
                idb_put ro_id
                  \<lparr>ro_id = oid, ro_filename = filename, ro_data = dat, ro_opacity = Some opacity,
                   ro_visible = Some vis, ro_groupId = Some groupId, ro_timestamp = Some now,
                   ro_url = None\<rparr>
                  (overlay_store d)\<rparr>))"

definition saveUrlOverlay ::
  "nat \<Rightarrow> string \<Rightarrow> string \<Rightarrow> string \<Rightarrow> real \<Rightarrow> bool \<Rightarrow> string \<Rightarrow> idb \<Rightarrow> unit outcome \<times> idb"
where
  "saveUrlOverlay now oid filename url opacity vis groupId d =
     (if \<not> available d then (Rejected, d)
      else (Fulfilled (),
            d\<lparr>overlay_store :=
                idb_put ro_id
                  \<lparr>ro_id = oid, ro_filename = filename, ro_data = [], ro_opacity = Some opacity,
                   ro_visible = Some vis, ro_groupId = Some groupId, ro_timestamp = Some now,
                   ro_url = Some url\<rparr>
                  (overlay_store d)\<rparr>))"

definition loadAllOverlays :: "nat \<Rightarrow> idb \<Rightarrow> stored_overlay list outcome" where
  "loadAllOverlays now d =
     (if \<not> available d then Rejected
      else Fulfilled (map (normalizeOverlay now) (overlay_store d)))"

definition deleteOverlay :: "string \<Rightarrow> idb \<Rightarrow> unit outcome \<times> idb" where
  "deleteOverlay oid d =
     (if \<not> available d then (Rejected, d)
      else (Fulfilled (), d\<lparr>overlay_store := idb_delete ro_id oid (overlay_store d)\<rparr>))"

text \<open>
  The four field helpers share one shape: inside a single read-write transaction,
  \<^verbatim>\<open>get\<close> the record, and if there is one, normalise it, assign the field, \<^verbatim>\<open>put\<close> it.
\<close>

definition updateRecord ::
  "nat \<Rightarrow> string \<Rightarrow> (stored_overlay \<Rightarrow> stored_overlay) \<Rightarrow> idb \<Rightarrow> unit outcome \<times> idb"
where
  "updateRecord now oid assign d =
     (if \<not> available d then (Rejected, d)
      else (Fulfilled (),
            case idb_get ro_id oid (overlay_store d) of
              None \<Rightarrow> d
            | Some r \<Rightarrow>
                d\<lparr>overlay_store :=
                    idb_put ro_id (as_raw (assign (normalizeOverlay now r))) (overlay_store d)\<rparr>))"

definition updateOverlayOpacity :: "nat \<Rightarrow> string \<Rightarrow> real \<Rightarrow> idb \<Rightarrow> unit outcome \<times> idb" where
  "updateOverlayOpacity now oid opacity d = updateRecord now oid (\<lambda>u. u\<lparr>so_opacity := opacity\<rparr>) d"

definition updateOverlayVisibility :: "nat \<Rightarrow> string \<Rightarrow> bool \<Rightarrow> idb \<Rightarrow> unit outcome \<times> idb" where
  "updateOverlayVisibility now oid vis d = updateRecord now oid (\<lambda>u. u\<lparr>so_visible := vis\<rparr>) d"

definition updateOverlayGroup :: "nat \<Rightarrow> string \<Rightarrow> string \<Rightarrow> idb \<Rightarrow> unit outcome \<times> idb" where
  "updateOverlayGroup now oid groupId d = updateRecord now oid (\<lambda>u. u\<lparr>so_groupId := groupId\<rparr>) d"

definition updateOverlayFilename :: "nat \<Rightarrow> string \<Rightarrow> string \<Rightarrow> idb \<Rightarrow> unit outcome \<times> idb" where
  "updateOverlayFilename now oid filename d =
     updateRecord now oid (\<lambda>u. u\<lparr>so_filename := filename\<rparr>) d"

text \<open>A record with every field present, and a database that holds it, for the examples.\<close>

definition sampleRecord :: raw_overlay where
  "sampleRecord =
     \<lparr>ro_id = ''shikoku'', ro_filename = ''shikoku'', ro_data = [0x50, 0x4D, 0x54],
      ro_opacity = Some 0.5, ro_visible = Some False, ro_groupId = Some ''group-1700000000000'',
      ro_timestamp = Some 1700000000000, ro_url = None\<rparr>"

definition sampleDb :: idb where
  "sampleDb = \<lparr>available = True, overlay_store = [sampleRecord], group_store = []\<rparr>"

text \<open>
  \<^verbatim>\<open>Array.prototype.sort\<close> with a comparator is a stable sort. It is modelled as an
  insertion sort that places an element before the first one it does not compare
  greater than. For a comparator that is consistent on the array every stable sort
  gives this result; for an inconsistent one the language leaves the order open.
\<close>

fun insort_cmp :: "('a \<Rightarrow> 'a \<Rightarrow> int) \<Rightarrow> 'a \<Rightarrow> 'a list \<Rightarrow> 'a list" where
  "insort_cmp cmp x [] = [x]"
| "insort_cmp cmp x (y # ys) = (if cmp x y \<le> 0 then x # y # ys else y # insort_cmp cmp x ys)"

definition js_sort :: "('a \<Rightarrow> 'a \<Rightarrow> int) \<Rightarrow> 'a list \<Rightarrow> 'a list" where
  "js_sort cmp xs = foldr (insort_cmp cmp) xs []"

definition saveGroup :: "overlay_group \<Rightarrow> idb \<Rightarrow> unit outcome \<times> idb" where
  "saveGroup g d =
     (if \<not> available d then (Rejected, d)
      else (Fulfilled (), d\<lparr>group_store := idb_put g_id g (group_store d)\<rparr>))"

definition loadAllGroups :: "idb \<Rightarrow> overlay_group list outcome" where
  "loadAllGroups d =
     (if \<not> available d then Rejected
      else Fulfilled (js_sort (\<lambda>a b. g_order a - g_order b) (group_store d)))"

definition deleteGroup :: "string \<Rightarrow> idb \<Rightarrow> unit outcome \<times> idb" where
  "deleteGroup gid d =
     (if \<not> available d then (Rejected, d)
      else (Fulfilled (), d\<lparr>group_store := idb_delete g_id gid (group_store d)\<rparr>))"

section \<open>The screen controller on the web platform\<close>

text \<open>
  \<^verbatim>\<open>MapScreen\<close> holds the list of overlays and the list of groups as component state,
  drives the map control through its handle and writes to the overlay store without
  waiting for the result (\<^verbatim>\<open>.catch(console.error)\<close>). The handlers that add and restore
  overlays run on the web platform only, where the handle is the in-process control, so
  the screen is modelled on that platform.
\<close>

record overlay_info =
  oi_id :: string
  oi_name :: string
  oi_bounds :: bounds
  oi_opacity :: real
  oi_visible :: bool
  oi_groupId :: string

definition DEFAULT_GROUP :: overlay_group where
  "DEFAULT_GROUP =
     \<lparr>g_id = ''default'',
      g_name = [CHR 0xE6, CHR 0x9C, CHR 0xAA, CHR 0xE5, CHR 0x88, CHR 0x86, CHR 0xE9, CHR 0xA1, CHR 0x9E],
      g_expanded = True,
      g_order = 9999\<rparr>"

record screen =
  mapLoaded :: bool
  mapRef :: "renderer option"
  overlays :: "overlay_info list"
  overlayGroups :: "overlay_group list"
  showGroupDialog :: bool
  newGroupName :: string
  renameGroupId :: "string option"
  renameGroupName :: string
  groupMenuId :: "string option"
  db :: idb

definition initialScreen :: "idb \<Rightarrow> screen" where
  "initialScreen d =
     \<lparr>mapLoaded = False, mapRef = None, overlays = [], overlayGroups = [DEFAULT_GROUP],
      showGroupDialog = False, newGroupName = [], renameGroupId = None, renameGroupName = [],
      groupMenuId = None, db = d\<rparr>"

text \<open>
  What the browser supplies: the header reader and the renderer faults of
  \<open>addRasterOverlay\<close>, and the URL that \<^verbatim>\<open>URL.createObjectURL\<close> hands out for a payload.

  The screen also calls \<^verbatim>\<open>toggleOverlayVisibility\<close> on the handle. The in-process
  control has no method of that name, so the call is a call of \<^verbatim>\<open>undefined\<close> and throws
  a \<^verbatim>\<open>TypeError\<close> at that point.
\<close>

record browser =
  overlayEnv :: overlay_env
  createObjectURL :: "bytes \<Rightarrow> string"

text \<open>\<^verbatim>\<open>name.replace(/\.pmtiles$/i, '')\<close>\<close>

definition pmtilesSuffix :: "string list" where
  "pmtilesSuffix = [''.'', ''pP'', ''mM'', ''tT'', ''iI'', ''lL'', ''eE'', ''sS'']"

definition stripPmtiles :: "string \<Rightarrow> string" where
  "stripPmtiles name =
     (let n = length name
      in if 8 \<le> n \<and> list_all2 (\<lambda>c cs. c \<in> set cs) (drop (n - 8) name) pmtilesSuffix
         then take (n - 8) name else name)"

text \<open>
  \<^verbatim>\<open>String.prototype.trim\<close> removes white space and line terminators from both ends.
  A string is the list of the bytes of its UTF-8 form, so each such character is the
  byte sequence that encodes it: U+0009 to U+000D, U+0020, U+00A0, U+1680, U+2000 to
  U+200A, U+2028, U+2029, U+202F, U+205F, U+3000 and U+FEFF.
\<close>

definition whiteSpace :: "string list" where
  "whiteSpace =
     [[CHR 0x09], [CHR 0x0A], [CHR 0x0B], [CHR 0x0C], [CHR 0x0D], [CHR 0x20],
      [CHR 0xC2, CHR 0xA0],
      [CHR 0xE1, CHR 0x9A, CHR 0x80],
      [CHR 0xE2, CHR 0x80, CHR 0x80], [CHR 0xE2, CHR 0x80, CHR 0x81],
      [CHR 0xE2, CHR 0x80, CHR 0x82], [CHR 0xE2, CHR 0x80, CHR 0x83],
      [CHR 0xE2, CHR 0x80, CHR 0x84], [CHR 0xE2, CHR 0x80, CHR 0x85],
      [CHR 0xE2, CHR 0x80, CHR 0x86], [CHR 0xE2, CHR 0x80, CHR 0x87],
      [CHR 0xE2, CHR 0x80, CHR 0x88], [CHR 0xE2, CHR 0x80, CHR 0x89],
      [CHR 0xE2, CHR 0x80, CHR 0x8A],
      [CHR 0xE2, CHR 0x80, CHR 0xA8], [CHR 0xE2, CHR 0x80, CHR 0xA9],
      [CHR 0xE2, CHR 0x80, CHR 0xAF],
      [CHR 0xE2, CHR 0x81, CHR 0x9F],
      [CHR 0xE3, CHR 0x80, CHR 0x80],
      [CHR 0xEF, CHR 0xBB, CHR 0xBF]]"

text \<open>
  Removing the white space at the front: as long as the string starts with one of the
  sequences, that sequence is dropped. Each round drops at least one byte, so as many
  rounds as the string has bytes are enough.
\<close>

fun trimStartRounds :: "nat \<Rightarrow> string list \<Rightarrow> string \<Rightarrow> string" where
  "trimStartRounds 0 ws s = s"
| "trimStartRounds (Suc n) ws s =
     (case find (\<lambda>w. take (length w) s = w) ws of
        None \<Rightarrow> s
      | Some w \<Rightarrow> trimStartRounds n ws (drop (length w) s))"

definition js_trimStart :: "string \<Rightarrow> string" where
  "js_trimStart s = trimStartRounds (length s) whiteSpace s"

text \<open>
  At the end the same is done on the reversed string with the reversed sequences; in
  UTF-8 the last bytes of a string are such a sequence only when its last character is
  that white space.
\<close>

definition js_trimEnd :: "string \<Rightarrow> string" where
  "js_trimEnd s = rev (trimStartRounds (length s) (map rev whiteSpace) (rev s))"

definition js_trim :: "string \<Rightarrow> string" where
  "js_trim s = js_trimEnd (js_trimStart s)"

text \<open>The decimal digits of a number, as a template literal prints it.\<close>

fun show_nat :: "nat \<Rightarrow> string" where
  "show_nat n =
     (if n < 10 then [char_of (48 + n)]
      else show_nat (n div 10) @ [char_of (48 + n mod 10)])"

declare show_nat.simps [simp del]

definition handleMapLoaded :: "screen \<Rightarrow> screen" where
  "handleMapLoaded s = s\<lparr>mapRef := Some loadedMap, mapLoaded := True\<rparr>"

text \<open>The \<^verbatim>\<open>change\<close> listener of the file input that \<^verbatim>\<open>handleAddOverlay\<close> creates.\<close>

definition handleAddOverlay ::
  "browser \<Rightarrow> nat \<Rightarrow> (string \<times> bytes) option \<Rightarrow> screen \<Rightarrow> screen"
where
  "handleAddOverlay br now file s =
     (case file of
        None \<Rightarrow> s
      | Some (fname, arrayBuffer) \<Rightarrow>
          (let blobUrl = createObjectURL br arrayBuffer;
               oid = stripPmtiles fname;
               (info, m) = addRasterOverlay (overlayEnv br) oid blobUrl (mapRef s)
           in case info of
                None \<Rightarrow> s\<lparr>mapRef := m\<rparr>
              | Some i \<Rightarrow>
                  (let info' = \<lparr>oi_id = od_id i, oi_name = stripPmtiles fname,
                                oi_bounds = od_bounds i, oi_opacity = 0.8, oi_visible = True,
                                oi_groupId = ''default''\<rparr>
                   in s\<lparr>mapRef := m,
                        overlays := filter (\<lambda>ov. oi_id ov \<noteq> oid) (overlays s) @ [info'],
                        db := snd (saveOverlay now oid (oi_name info') arrayBuffer 0.8 True
                                     ''default'' (db s))\<rparr>)))"

definition handleRemoveOverlay :: "string \<Rightarrow> screen \<Rightarrow> screen" where
  "handleRemoveOverlay oid s =
     s\<lparr>mapRef := removeRasterOverlay oid (mapRef s),
       overlays := filter (\<lambda>ov. oi_id ov \<noteq> oid) (overlays s),
       db := snd (deleteOverlay oid (db s))\<rparr>"

definition handleOverlayOpacityChange :: "nat \<Rightarrow> string \<Rightarrow> real \<Rightarrow> screen \<Rightarrow> screen" where
  "handleOverlayOpacityChange now oid opacity s =
     s\<lparr>mapRef := setOverlayOpacity oid opacity (mapRef s),
       overlays := map (\<lambda>ov. if oi_id ov = oid then ov\<lparr>oi_opacity := opacity\<rparr> else ov) (overlays s),
       db := snd (updateOverlayOpacity now oid opacity (db s))\<rparr>"

text \<open>
  \<open>handleToggleOverlayVisibility\<close> maps over the list inside the state updater. For the
  first overlay of the given id it calls \<^verbatim>\<open>toggleOverlayVisibility\<close>, which throws before
  the store is written and before the updater returns: the state stays as it is. When
  no overlay has the id, the updater returns a list equal to the old one.
\<close>

definition handleToggleOverlayVisibility :: "string \<Rightarrow> screen \<Rightarrow> screen" where
  "handleToggleOverlayVisibility oid s =
     (if list_ex (\<lambda>ov. oi_id ov = oid) (overlays s) then s
      else s\<lparr>overlays := map (\<lambda>ov. if oi_id ov = oid then ov\<lparr>oi_visible := \<not> oi_visible ov\<rparr> else ov)
                              (overlays s)\<rparr>)"

definition handleToggleGroupExpanded :: "string \<Rightarrow> screen \<Rightarrow> screen" where
  "handleToggleGroupExpanded groupId s =
     (let upd = (\<lambda>g. g\<lparr>g_expanded := \<not> g_expanded g\<rparr>)
      in s\<lparr>overlayGroups := map (\<lambda>g. if g_id g = groupId then upd g else g) (overlayGroups s),
           db := foldl (\<lambda>d g. snd (saveGroup (upd g) d)) (db s)
                   (filter (\<lambda>g. g_id g = groupId) (overlayGroups s))\<rparr>)"

definition handleCreateGroup :: "nat \<Rightarrow> screen \<Rightarrow> screen" where
  "handleCreateGroup now s =
     (let name = js_trim (newGroupName s)
      in if name = [] then s
         else
           (let gid = ''group-'' @ show_nat now;
                maxOrder = fold max (map g_order (filter (\<lambda>g. g_id g \<noteq> ''default'') (overlayGroups s))) 0;
                newGroup = \<lparr>g_id = gid, g_name = name, g_expanded = True, g_order = maxOrder + 1\<rparr>;
                withoutDefault = filter (\<lambda>g. g_id g \<noteq> ''default'') (overlayGroups s);
                defaultGroup = (case find (\<lambda>g. g_id g = ''default'') (overlayGroups s) of
                                  None \<Rightarrow> DEFAULT_GROUP | Some g \<Rightarrow> g)
            in s\<lparr>overlayGroups := withoutDefault @ [newGroup, defaultGroup],
                 db := snd (saveGroup newGroup (db s)),
                 newGroupName := [],
                 showGroupDialog := False\<rparr>))"

definition handleRenameGroup :: "screen \<Rightarrow> screen" where
  "handleRenameGroup s =
     (case renameGroupId s of
        None \<Rightarrow> s
      | Some rid \<Rightarrow>
          if rid = [] then s
          else
            (let name = js_trim (renameGroupName s)
             in if name = [] then s
                else
                  s\<lparr>overlayGroups := map (\<lambda>g. if g_id g = rid then g\<lparr>g_name := name\<rparr> else g)
                                          (overlayGroups s),
                    db := foldl (\<lambda>d g. snd (saveGroup (g\<lparr>g_name := name\<rparr>) d)) (db s)
                            (filter (\<lambda>g. g_id g = rid) (overlayGroups s)),
                    renameGroupId := None,
                    renameGroupName := []\<rparr>))"

definition handleDeleteGroup :: "nat \<Rightarrow> string \<Rightarrow> screen \<Rightarrow> screen" where
  "handleDeleteGroup now groupId s =
     (if groupId = ''default'' then s
      else
        s\<lparr>overlays := map (\<lambda>ov. if oi_groupId ov = groupId then ov\<lparr>oi_groupId := ''default''\<rparr> else ov)
                          (overlays s),
          overlayGroups := filter (\<lambda>g. g_id g \<noteq> groupId) (overlayGroups s),
          db := snd (deleteGroup groupId
                       (foldl (\<lambda>d ov. snd (updateOverlayGroup now (oi_id ov) ''default'' d)) (db s)
                          (filter (\<lambda>ov. oi_groupId ov = groupId) (overlays s)))),
          groupMenuId := None\<rparr>)"

definition handleMoveOverlayToGroup :: "nat \<Rightarrow> string \<Rightarrow> string \<Rightarrow> screen \<Rightarrow> screen" where
  "handleMoveOverlayToGroup now overlayId groupId s =
     s\<lparr>overlays := map (\<lambda>ov. if oi_id ov = overlayId then ov\<lparr>oi_groupId := groupId\<rparr> else ov) (overlays s),
       db := foldl (\<lambda>d ov. snd (updateOverlayGroup now overlayId groupId d)) (db s)
               (filter (\<lambda>ov. oi_id ov = overlayId) (overlays s))\<rparr>"

text \<open>
  The effect that runs once the map is loaded: it restores the groups, then adds the
  stored overlays one after the other. A rejected load is caught and ends the effect.
  So does the \<^verbatim>\<open>TypeError\<close> of \<^verbatim>\<open>toggleOverlayVisibility\<close>, which is called for a stored
  overlay that is not visible, after its source and layer were added and its opacity
  set, and before it is put into the list: the overlays after it are not restored.
\<close>

fun restoreOverlays :: "browser \<Rightarrow> stored_overlay list \<Rightarrow> screen \<Rightarrow> screen" where
  "restoreOverlays br [] s = s"
| "restoreOverlays br (entry # rest) s =
     (let blobUrl = createObjectURL br (so_data entry);
          (info, m) = addRasterOverlay (overlayEnv br) (so_id entry) blobUrl (mapRef s)
      in case info of
           None \<Rightarrow> restoreOverlays br rest (s\<lparr>mapRef := m\<rparr>)
         | Some i \<Rightarrow>
             (let info' = \<lparr>oi_id = od_id i, oi_name = so_filename entry, oi_bounds = od_bounds i,
                           oi_opacity = so_opacity entry, oi_visible = so_visible entry,
                           oi_groupId = so_groupId entry\<rparr>;
                  m1 = setOverlayOpacity (so_id entry) (so_opacity entry) m
              in if \<not> so_visible entry then s\<lparr>mapRef := m1\<rparr>
                 else restoreOverlays br rest
                        (s\<lparr>mapRef := m1,
                           overlays := filter (\<lambda>ov. oi_id ov \<noteq> so_id entry) (overlays s) @ [info']\<rparr>)))"

definition restoreGroups :: "overlay_group list \<Rightarrow> screen \<Rightarrow> screen" where
  "restoreGroups storedGroups s =
     (if storedGroups \<noteq> []
      then s\<lparr>overlayGroups :=
               (if list_ex (\<lambda>g. g_id g = ''default'') storedGroups then storedGroups
                else storedGroups @ [DEFAULT_GROUP])\<rparr>
      else s)"

definition restore :: "browser \<Rightarrow> nat \<Rightarrow> screen \<Rightarrow> screen" where
  "restore br now s =
     (if \<not> mapLoaded s then s
      else case loadAllGroups (db s) of
             Rejected \<Rightarrow> s
           | Fulfilled storedGroups \<Rightarrow>
               (let s1 = restoreGroups storedGroups s
                in case loadAllOverlays now (db s1) of
                     Rejected \<Rightarrow> s1
                   | Fulfilled stored \<Rightarrow> restoreOverlays br stored s1))"

text \<open>\<^verbatim>\<open>sortedGroups\<close>: user groups first, \<^verbatim>\<open>default\<close> last.\<close>

definition groupCompare :: "overlay_group \<Rightarrow> overlay_group \<Rightarrow> int" where
  "groupCompare a b =
     (if g_id a = ''default'' then 1
      else if g_id b = ''default'' then - 1
      else g_order a - g_order b)"

definition sortedGroups :: "overlay_group list \<Rightarrow> overlay_group list" where
  "sortedGroups gs = js_sort groupCompare gs"

text \<open>Two user groups for the examples, with orders 5 and 1.\<close>

definition groupA :: overlay_group where
  "groupA = \<lparr>g_id = ''group-1700000000000'', g_name = ''A'', g_expanded = True, g_order = 5\<rparr>"

definition groupB :: overlay_group where
  "groupB = \<lparr>g_id = ''group-1700000000001'', g_name = ''B'', g_expanded = False, g_order = 1\<rparr>"

text \<open>
  The screen as a machine: what the user and the browser can make happen, and the
  state after a sequence of such events. The text fields of the two dialogs are set
  by the event that confirms the dialog.
\<close>

datatype screen_event =
    MapLoad
  | Restore browser nat
  | AddOverlay browser nat "(string \<times> bytes) option"
  | RemoveOverlay string
  | OverlayOpacityChange nat string real
  | ToggleOverlayVisibility string
  | ToggleGroupExpanded string
  | CreateGroup nat string
  | RenameGroup "string option" string
  | DeleteGroup nat string
  | MoveOverlayToGroup nat string string

fun screen_on :: "screen_event \<Rightarrow> screen \<Rightarrow> screen" where
  "screen_on MapLoad s = handleMapLoaded s"
| "screen_on (Restore br now) s = restore br now s"
| "screen_on (AddOverlay br now file) s = handleAddOverlay br now file s"
| "screen_on (RemoveOverlay oid) s = handleRemoveOverlay oid s"
| "screen_on (OverlayOpacityChange now oid opacity) s = handleOverlayOpacityChange now oid opacity s"
| "screen_on (ToggleOverlayVisibility oid) s = handleToggleOverlayVisibility oid s"
| "screen_on (ToggleGroupExpanded gid) s = handleToggleGroupExpanded gid s"
| "screen_on (CreateGroup now text) s = handleCreateGroup now (s\<lparr>newGroupName := text\<rparr>)"
| "screen_on (RenameGroup rid text) s =
     handleRenameGroup (s\<lparr>renameGroupId := rid, renameGroupName := text\<rparr>)"
| "screen_on (DeleteGroup now gid) s = handleDeleteGroup now gid s"
| "screen_on (MoveOverlayToGroup now oid gid) s = handleMoveOverlayToGroup now oid gid s"

definition screen_run :: "screen_event list \<Rightarrow> screen \<Rightarrow> screen" where
  "screen_run es s = foldl (\<lambda>s' e. screen_on e s') s es"



text \<open>
  An empty database, and a browser in which every header reads well and no renderer
  call throws.
\<close>

definition emptyDb :: idb where
  "emptyDb = \<lparr>available = True, overlay_store = [], group_store = []\<rparr>"

definition sampleBrowser :: browser where
  "sampleBrowser =
     \<lparr>overlayEnv = goodEnv, createObjectURL = (\<lambda>dat. ''blob:https://example.org/1'')\<rparr>"

text \<open>
  A session for the examples: the map loads, the user adds \<^verbatim>\<open>shikoku.pmtiles\<close> and sets
  its opacity to 0.3; then the user adds a file of the same derived id.
\<close>

definition firstAdd :: "screen_event list" where
  "firstAdd =
     [MapLoad,
      AddOverlay sampleBrowser 1700000001000 (Some (''shikoku.pmtiles'', [0x50, 0x4D])),
      OverlayOpacityChange 1700000002000 ''shikoku'' 0.3]"

definition secondAdd :: screen_event where
  "secondAdd = AddOverlay sampleBrowser 1700000003000 (Some (''shikoku.PMTILES'', [0x51]))"




text \<open>A screen for the examples: one overlay, in the user group A.\<close>

definition sampleScreen :: screen where
  "sampleScreen =
     (initialScreen sampleDb)
       \<lparr>overlays := [\<lparr>oi_id = ''shikoku'', oi_name = ''shikoku'', oi_bounds = (132, 32, 135, 35),
                      oi_opacity = 0.5, oi_visible = False,
                      oi_groupId = ''group-1700000000000''\<rparr>],
        overlayGroups := [groupA, DEFAULT_GROUP]\<rparr>"

section \<open>Facts about the renderer\<close>





section \<open>The pulsing halo: bounds of the radius\<close>















section \<open>The accuracy radius\<close>

lemma sources_setLayoutProperty_visibility [simp]:
  "sources (setLayoutProperty_visibility lid v m) = sources m"
  and zoom_setLayoutProperty_visibility [simp]:
  "zoom (setLayoutProperty_visibility lid v m) = zoom m"
  by (simp_all add: setLayoutProperty_visibility_def)

lemma sources_setVisibilityOfExisting [simp]:
  "sources (setVisibilityOfExisting ids v m) = sources m"
  unfolding setVisibilityOfExisting_def
  by (induction ids arbitrary: m) simp_all

lemma getSource_setVisibilityOfExisting [simp]:
  "getSource (setVisibilityOfExisting ids v m) k = getSource m k"
  by (simp add: getSource_def)

lemma map_of_setData:
  "map_of (map (\<lambda>(k, v). if k = sid then (k, GeoJSONSource f) else (k, v)) xs) k' =
     (if k' = sid then map_option (\<lambda>_. GeoJSONSource f) (map_of xs k') else map_of xs k')"
  by (induction xs) auto

lemma getSource_setData:
  "getSource (setData sid f m) k =
     (if k = sid then map_option (\<lambda>_. GeoJSONSource f) (getSource m k) else getSource m k)"
  by (simp add: getSource_def setData_def map_of_setData)

lemma clamp_radius_finite:
  assumes "a \<noteq> 0"
  shows "\<exists>r. js_min (js_max (js_div a mpp) 10) 100 = Num r \<and> 10 \<le> r \<and> r \<le> 100 \<and>
             (mpp \<noteq> 0 \<longrightarrow> r = min (max (a / mpp) 10) 100)"
  using assms by (auto simp: js_div_def)

lemma cos_35_bounds: "1 / 2 \<le> cos ((35 * pi) / 180)" "cos ((35 * pi) / 180) \<le> 1"
proof -
  have "cos (pi / 3) \<le> cos ((35 * pi) / 180)"
    by (rule cos_monotone_0_pi_le) (use pi_gt_zero in auto)
  then show "1 / 2 \<le> cos ((35 * pi) / 180)" by (simp add: cos_60)
  show "cos ((35 * pi) / 180) \<le> 1" by simp
qed

lemma mpp_35_13_bounds: "9 \<le> metersPerPixel 35 13" "metersPerPixel 35 13 \<le> 20"
proof -
  have p: "(2::real) powr 13 = 8192" by simp
  have g: "9 \<le> (156543.03392 * c) / 8192 \<and> (156543.03392 * c) / 8192 \<le> 20"
    if "1 / 2 \<le> c" "c \<le> 1" for c :: real
    using that by (simp add: field_simps)
  from g [OF cos_35_bounds] show "9 \<le> metersPerPixel 35 13" "metersPerPixel 35 13 \<le> 20"
    unfolding metersPerPixel_def p by blast+
qed

lemma radius_35_13:
  "js_min (js_max (js_div 1 (metersPerPixel 35 13)) 10) 100 = Num 10"
  "js_min (js_max (js_div 100000 (metersPerPixel 35 13)) 10) 100 = Num 100"
proof -
  let ?m = "metersPerPixel 35 13"
  have pos: "0 < ?m" using mpp_35_13_bounds(1) by linarith
  have "1 / ?m \<le> 10"
    using mpp_35_13_bounds(1) pos by (simp add: field_simps)
  then show "js_min (js_max (js_div 1 ?m) 10) 100 = Num 10"
    using pos by (simp add: js_div_def max_def min_def)
  have "100 \<le> 100000 / ?m"
    using mpp_35_13_bounds(2) pos by (simp add: field_simps)
  then show "js_min (js_max (js_div 100000 ?m) 10) 100 = Num 100"
    using pos by (simp add: js_div_def max_def min_def)
qed


lemma updateLocation_feature:
  assumes "getSource m ''user-location'' \<noteq> None"
  shows "\<exists>m'. updateLocation lng lat acc (Some m) = Some m' \<and>
          getSource m' ''user-location'' =
            Some (GeoJSONSource \<lparr>coordinates = (lng, lat),
                    accuracyRadius = Some (accuracyRadiusOf acc (metersPerPixel lat (zoom m)))\<rparr>)"
  using assms by (auto simp: updateLocation_def getSource_setData)

lemma page_map_posted [simp]: "page_map (pg\<lparr>posted := ms\<rparr>) = page_map pg"
  by simp

lemma updateUserLocation_feature:
  assumes "getSource (page_map pg) ''user-location'' \<noteq> None"
  shows "getSource (page_map (updateUserLocation lng lat a pg)) ''user-location'' =
            Some (GeoJSONSource \<lparr>coordinates = (lng, lat),
                    accuracyRadius = Some (accuracyRadiusOf (Some a) (metersPerPixel lat (zoom (page_map pg))))\<rparr>)"
  using assms
  by (auto simp: updateUserLocation_def setLocationLayersVisibility_def getSource_setData)

lemma bridged_updateLocation_feature:
  assumes "webViewMounted (host s)" "injected (host s) = []"
    and "getSource (page_map (webview s)) ''user-location'' \<noteq> None"
  shows "getSource (page_map (webview (bridged_on (HandleUpdateLocation lng lat (Some a)) s)))
           ''user-location'' =
            Some (GeoJSONSource \<lparr>coordinates = (lng, lat),
                    accuracyRadius =
                      Some (accuracyRadiusOf (Some a) (metersPerPixel lat (zoom (page_map (webview s)))))\<rparr>)"
  using assms updateUserLocation_feature [OF assms(3), of lng lat a]
  by (simp add: deliver_def bridge_updateLocation_def sendCommand_def Let_def)

text \<open>
  C1. When the accuracy is neither null nor zero, the radius that \<open>updateLocation\<close>
  writes into the feature of the \<^verbatim>\<open>user-location\<close> source is the accuracy divided by
  the meters per pixel \<open>156543.03392 * cos (lat * pi / 180) / 2 powr zoom\<close>, clamped to
  the interval from 10 to 100; at latitude 35 and zoom 13 an accuracy of 1 gives 10 and
  an accuracy of 100000 gives 100. The in-process control and the page of the bridged
  control write the same value. Nothing is written while the source does not exist.
\<close>

theorem accuracy_radius_clamped:
  assumes "accuracy \<noteq> 0"
  shows
    "metersPerPixel lat z = 156543.03392 * cos (lat * pi / 180) / 2 powr z \<and>
     (\<exists>r. accuracyRadiusOf (Some accuracy) (metersPerPixel lat z) = Num r \<and> 10 \<le> r \<and> r \<le> 100 \<and>
          (metersPerPixel lat z \<noteq> 0 \<longrightarrow> r = min (max (accuracy / metersPerPixel lat z) 10) 100)) \<and>
     accuracyRadiusOf (Some 1) (metersPerPixel 35 13) = Num 10 \<and>
     accuracyRadiusOf (Some 100000) (metersPerPixel 35 13) = Num 100 \<and>
     (getSource m ''user-location'' \<noteq> None \<longrightarrow>
        (\<exists>m'. updateLocation lng lat (Some accuracy) (Some m) = Some m' \<and>
              getSource m' ''user-location'' =
                Some (GeoJSONSource \<lparr>coordinates = (lng, lat),
                        accuracyRadius =
                          Some (accuracyRadiusOf (Some accuracy) (metersPerPixel lat (zoom m)))\<rparr>))) \<and>
     (webViewMounted (host s) \<and> injected (host s) = [] \<and>
      getSource (page_map (webview s)) ''user-location'' \<noteq> None \<longrightarrow>
        getSource (page_map (webview (bridged_on (HandleUpdateLocation lng lat (Some accuracy)) s)))
            ''user-location'' =
          Some (GeoJSONSource \<lparr>coordinates = (lng, lat),
                  accuracyRadius =
                    Some (accuracyRadiusOf (Some accuracy)
                            (metersPerPixel lat (zoom (page_map (webview s)))))\<rparr>))"
proof -
  have a: "metersPerPixel lat z = 156543.03392 * cos (lat * pi / 180) / 2 powr z"
    by (simp add: metersPerPixel_def)
  have b: "\<exists>r. accuracyRadiusOf (Some accuracy) (metersPerPixel lat z) = Num r \<and> 10 \<le> r \<and> r \<le> 100 \<and>
          (metersPerPixel lat z \<noteq> 0 \<longrightarrow> r = min (max (accuracy / metersPerPixel lat z) 10) 100)"
    using clamp_radius_finite [OF assms, of "metersPerPixel lat z"] assms
    by (simp add: accuracyRadiusOf_def)
  have c: "accuracyRadiusOf (Some 1) (metersPerPixel 35 13) = Num 10"
    "accuracyRadiusOf (Some 100000) (metersPerPixel 35 13) = Num 100"
    by (simp_all add: accuracyRadiusOf_def radius_35_13)
  show ?thesis
    using a b c updateLocation_feature [of m lng lat "Some accuracy"]
      bridged_updateLocation_feature [of s lng lat accuracy]
    by blast
qed

lemma getSource_loadedMap: "getSource loadedMap ''user-location'' \<noteq> None"
  by (simp add: loadedMap_def addLocationLayers_def addLayer_def addSource_def newMap_def
      pmtilesLayers_def mk_layer_def getSource_def)

lemma zoom_loadedMap: "zoom loadedMap = 13"
  by (simp add: loadedMap_def addLocationLayers_def addLayer_def addSource_def newMap_def
      pmtilesLayers_def mk_layer_def DEFAULT_ZOOM_def)

lemma loaded_page:
  "webViewMounted (host (bridged_on (InPage PageLoad) newBridged))"
  "injected (host (bridged_on (InPage PageLoad) newBridged)) = []"
  "getSource (page_map (webview (bridged_on (InPage PageLoad) newBridged))) ''user-location'' \<noteq> None"
  by (simp_all add: newBridged_def newBridge_def newPage_def deliver_def postMessage_def Let_def
      animatePulse_def addLocationLayers_def addLayer_def addSource_def newMap_def
      pmtilesLayers_def mk_layer_def getSource_def getLayer_def setPaintProperty_def split_def)

text \<open>The statement for an accuracy of 1 m at latitude 35 on the loaded map, zoom 13.\<close>

theorem accuracy_radius_clamped_witness:
  "(1::real) \<noteq> 0 \<and> getSource loadedMap ''user-location'' \<noteq> None \<and>
   webViewMounted (host (bridged_on (InPage PageLoad) newBridged)) \<and>
   injected (host (bridged_on (InPage PageLoad) newBridged)) = [] \<and>
   getSource (page_map (webview (bridged_on (InPage PageLoad) newBridged))) ''user-location'' \<noteq> None \<and>
   (\<exists>m'. updateLocation 139 35 (Some 1) (Some loadedMap) = Some m' \<and>
         getSource m' ''user-location'' =
           Some (GeoJSONSource \<lparr>coordinates = (139, 35), accuracyRadius = Some (Num 10)\<rparr>)) \<and>
   getSource (page_map (webview (bridged_on (HandleUpdateLocation 139 35 (Some 1))
                                   (bridged_on (InPage PageLoad) newBridged))))
       ''user-location'' \<noteq> None"
proof -
  have h: "(1::real) \<noteq> 0" by simp
  note t = accuracy_radius_clamped [OF h, where lat = 35 and z = 13 and m = loadedMap
      and lng = 139 and s = "bridged_on (InPage PageLoad) newBridged"]
  from t have ten: "accuracyRadiusOf (Some 1) (metersPerPixel 35 13) = Num 10" by blast
  from t getSource_loadedMap
  have "\<exists>m'. updateLocation 139 35 (Some 1) (Some loadedMap) = Some m' \<and>
         getSource m' ''user-location'' =
           Some (GeoJSONSource \<lparr>coordinates = (139, 35),
                   accuracyRadius = Some (accuracyRadiusOf (Some 1) (metersPerPixel 35 (zoom loadedMap)))\<rparr>)"
    by blast
  then have web: "\<exists>m'. updateLocation 139 35 (Some 1) (Some loadedMap) = Some m' \<and>
         getSource m' ''user-location'' =
           Some (GeoJSONSource \<lparr>coordinates = (139, 35), accuracyRadius = Some (Num 10)\<rparr>)"
    by (simp only: zoom_loadedMap ten)
  from t loaded_page
  have "getSource (page_map (webview (bridged_on (HandleUpdateLocation 139 35 (Some 1))
                                   (bridged_on (InPage PageLoad) newBridged))))
       ''user-location'' \<noteq> None"
    by (metis option.distinct(1))
  with h getSource_loadedMap loaded_page web show ?thesis by blast
qed

section \<open>Failure of addRasterOverlay\<close>

lemma find_layer_None_iff:
  "find (\<lambda>x. layer_id x = k) xs = None \<longleftrightarrow> k \<notin> layer_id ` set xs"
  by (auto simp: find_None_iff)

lemma getLayer_None_iff: "getLayer m k = None \<longleftrightarrow> k \<notin> layer_id ` set (layers m)"
  by (simp add: getLayer_def find_layer_None_iff)

lemma getSource_None_iff: "getSource m k = None \<longleftrightarrow> k \<notin> fst ` set (sources m)"
  by (simp add: getSource_def map_of_eq_None_iff)

lemma set_insert_before:
  "b \<in> layer_id ` set xs \<Longrightarrow> set (insert_before b l xs) = insert l (set xs)"
  by (induction xs) auto

lemma layers_removeSource [simp]: "layers (removeSource sid m) = layers m"
  and layers_addSource [simp]: "layers (addSource sid spec m) = layers m"
  and sources_removeLayer [simp]: "sources (removeLayer lid m) = sources m"
  and sources_addLayer [simp]: "sources (addLayer l before m) = sources m"
  by (simp_all add: removeSource_def addSource_def removeLayer_def addLayer_def split: option.splits)

lemma source_ids_removeSource:
  "fst ` set (sources (removeSource sid m)) = fst ` set (sources m) - {sid}"
  by (auto simp: removeSource_def image_iff)

lemma source_ids_addSource:
  "fst ` set (sources (addSource sid spec m)) = insert sid (fst ` set (sources m))"
  by (auto simp: addSource_def map_of_eq_None_iff image_iff)

lemma layer_ids_removeLayer:
  "layer_id ` set (layers (removeLayer lid m)) = layer_id ` set (layers m) - {lid}"
  by (auto simp: removeLayer_def image_iff)

lemma layer_ids_addLayer:
  assumes "before = None \<or> (\<exists>b. before = Some b \<and> b \<in> layer_id ` set (layers m))"
  shows "layer_id ` set (layers (addLayer l before m)) = insert (layer_id l) (layer_id ` set (layers m))"
  using assms
  by (auto simp: addLayer_def find_layer_None_iff set_insert_before split: option.splits)

lemma cleared_ids:
  "layer_id ` set (layers (cleared oid m)) = layer_id ` set (layers m) - {overlayLayerId oid}"
  "fst ` set (sources (cleared oid m)) = fst ` set (sources m) - {overlaySourceId oid}"
  by (auto simp: cleared_def Let_def getLayer_None_iff getSource_None_iff
      layer_ids_removeLayer source_ids_removeSource)

lemma addRasterOverlay_cases:
  "addRasterOverlay env oid url (Some m) =
     (case getHeader env url of
        None \<Rightarrow> (None, Some m)
      | Some h \<Rightarrow>
          if addSource_throws env then (None, Some (cleared oid m))
          else
            let m3 = addSource (overlaySourceId oid) (RasterSource (''pmtiles://'' @ url) 256) (cleared oid m)
            in if addLayer_throws env then (None, Some m3)
               else
                 let m4 = addLayer (mk_layer (overlayLayerId oid) (Some (overlaySourceId oid)) True
                                      [(''raster-opacity'', 0.8)])
                            (if getLayer m3 ''user-location-accuracy'' \<noteq> None
                             then Some ''user-location-accuracy'' else None) m3
                 in if fitBounds_throws env then (None, Some m4)
                    else (Some \<lparr>od_id = oid, od_name = oid,
                                od_bounds = (minLon h, minLat h, maxLon h, maxLat h), od_opacity = 0.8\<rparr>,
                          Some (m4\<lparr>camera := camera m4 @
                                  [FitBounds (minLon h, minLat h, maxLon h, maxLat h) 20 1500]\<rparr>)))"
  by (simp only: addRasterOverlay_def cleared_def Let_def option.case)

lemma added_ids:
  fixes oid url m
  defines "m3 \<equiv> addSource (overlaySourceId oid) (RasterSource (''pmtiles://'' @ url) 256) (cleared oid m)"
  defines "m4 \<equiv> addLayer (mk_layer (overlayLayerId oid) (Some (overlaySourceId oid)) True
                                      [(''raster-opacity'', 0.8)])
                            (if getLayer m3 ''user-location-accuracy'' \<noteq> None
                             then Some ''user-location-accuracy'' else None) m3"
  shows "fst ` set (sources m3) = insert (overlaySourceId oid) (fst ` set (sources m))"
    and "layer_id ` set (layers m3) = layer_id ` set (layers m) - {overlayLayerId oid}"
    and "fst ` set (sources m4) = insert (overlaySourceId oid) (fst ` set (sources m))"
    and "layer_id ` set (layers m4) = insert (overlayLayerId oid) (layer_id ` set (layers m))"
proof -
  show s3: "fst ` set (sources m3) = insert (overlaySourceId oid) (fst ` set (sources m))"
    unfolding m3_def by (auto simp: source_ids_addSource cleared_ids)
  show l3: "layer_id ` set (layers m3) = layer_id ` set (layers m) - {overlayLayerId oid}"
    unfolding m3_def by (simp add: cleared_ids)
  show "fst ` set (sources m4) = insert (overlaySourceId oid) (fst ` set (sources m))"
    unfolding m4_def using s3 by simp
  have "layer_id ` set (layers m4) = insert (overlayLayerId oid) (layer_id ` set (layers m3))"
    unfolding m4_def
    by (subst layer_ids_addLayer) (auto simp: getLayer_None_iff mk_layer_def)
  then show "layer_id ` set (layers m4) = insert (overlayLayerId oid) (layer_id ` set (layers m))"
    using l3 by auto
qed

lemma aro_no_header:
  "getHeader env url = None \<Longrightarrow> addRasterOverlay env oid url (Some m) = (None, Some m)"
  by (simp add: addRasterOverlay_cases)

lemma aro_source_throws:
  "getHeader env url \<noteq> None \<Longrightarrow> addSource_throws env \<Longrightarrow>
   addRasterOverlay env oid url (Some m) = (None, Some (cleared oid m))"
  by (auto simp: addRasterOverlay_cases)

lemma aro_layer_throws:
  "getHeader env url \<noteq> None \<Longrightarrow> \<not> addSource_throws env \<Longrightarrow> addLayer_throws env \<Longrightarrow>
   addRasterOverlay env oid url (Some m) = (None, Some (withSource oid url m))"
  by (auto simp: addRasterOverlay_cases withSource_def Let_def)

lemma aro_fit_throws:
  "getHeader env url \<noteq> None \<Longrightarrow> \<not> addSource_throws env \<Longrightarrow> \<not> addLayer_throws env \<Longrightarrow>
   fitBounds_throws env \<Longrightarrow>
   addRasterOverlay env oid url (Some m) = (None, Some (withLayer oid url m))"
  by (auto simp: addRasterOverlay_cases withSource_def withLayer_def Let_def)

lemma aro_ok:
  "getHeader env url = Some h \<Longrightarrow> \<not> addSource_throws env \<Longrightarrow> \<not> addLayer_throws env \<Longrightarrow>
   \<not> fitBounds_throws env \<Longrightarrow>
   addRasterOverlay env oid url (Some m) =
     (Some \<lparr>od_id = oid, od_name = oid,
            od_bounds = (minLon h, minLat h, maxLon h, maxLat h), od_opacity = 0.8\<rparr>,
      Some ((withLayer oid url m)\<lparr>camera := camera (withLayer oid url m) @
              [FitBounds (minLon h, minLat h, maxLon h, maxLat h) 20 1500]\<rparr>))"
  by (simp add: addRasterOverlay_cases withSource_def withLayer_def Let_def)

lemma with_ids:
  "fst ` set (sources (withSource oid url m)) = insert (overlaySourceId oid) (fst ` set (sources m))"
  "layer_id ` set (layers (withSource oid url m)) = layer_id ` set (layers m) - {overlayLayerId oid}"
  "fst ` set (sources (withLayer oid url m)) = insert (overlaySourceId oid) (fst ` set (sources m))"
  "layer_id ` set (layers (withLayer oid url m)) = insert (overlayLayerId oid) (layer_id ` set (layers m))"
  unfolding withLayer_def withSource_def by (rule added_ids)+

lemma aro_None_iff:
  "fst (addRasterOverlay env oid url (Some m)) = None \<longleftrightarrow>
      getHeader env url = None \<or> addSource_throws env \<or> addLayer_throws env \<or> fitBounds_throws env"
proof (cases "getHeader env url")
  case None
  then show ?thesis by (simp add: aro_no_header)
next
  case (Some h)
  then have h: "getHeader env url \<noteq> None" by simp
  show ?thesis
  proof (cases "addSource_throws env")
    case True
    then show ?thesis by (simp add: aro_source_throws [OF h])
  next
    case ns: False
    show ?thesis
    proof (cases "addLayer_throws env")
      case True
      then show ?thesis by (simp add: aro_layer_throws [OF h ns])
    next
      case nl: False
      show ?thesis
      proof (cases "fitBounds_throws env")
        case True
        then show ?thesis by (simp add: aro_fit_throws [OF h ns nl])
      next
        case False
        then show ?thesis using Some ns nl by (simp add: aro_ok)
      qed
    qed
  qed
qed

text \<open>
  C2 (as amended). \<open>addRasterOverlay\<close> returns null exactly when the header cannot be
  read or one of the renderer calls throws, and nothing is rolled back. When the header
  cannot be read the renderer is unchanged. When \<^verbatim>\<open>addSource\<close> throws, the earlier
  source and layer of the id are already removed and nothing is bound to the id. When
  \<^verbatim>\<open>addLayer\<close> throws, the source registered just before stays; when \<^verbatim>\<open>fitBounds\<close>
  throws, the source and the layer stay.
\<close>

theorem addRasterOverlay_failure_leaves_state:
  "(fst (addRasterOverlay env oid url (Some m)) = None \<longleftrightarrow>
      getHeader env url = None \<or> addSource_throws env \<or> addLayer_throws env \<or> fitBounds_throws env) \<and>
   addRasterOverlay env oid url None = (None, None) \<and>
   (getHeader env url = None \<longrightarrow> snd (addRasterOverlay env oid url (Some m)) = Some m) \<and>
   (getHeader env url \<noteq> None \<and> addSource_throws env \<longrightarrow>
      \<not> hasOverlaySource (snd (addRasterOverlay env oid url (Some m))) oid \<and>
      \<not> hasOverlayLayer (snd (addRasterOverlay env oid url (Some m))) oid) \<and>
   (getHeader env url \<noteq> None \<and> \<not> addSource_throws env \<and> addLayer_throws env \<longrightarrow>
      hasOverlaySource (snd (addRasterOverlay env oid url (Some m))) oid \<and>
      \<not> hasOverlayLayer (snd (addRasterOverlay env oid url (Some m))) oid) \<and>
   (getHeader env url \<noteq> None \<and> \<not> addSource_throws env \<and> \<not> addLayer_throws env \<and>
    fitBounds_throws env \<longrightarrow>
      hasOverlaySource (snd (addRasterOverlay env oid url (Some m))) oid \<and>
      hasOverlayLayer (snd (addRasterOverlay env oid url (Some m))) oid)"
proof (intro conjI impI)
  show "fst (addRasterOverlay env oid url (Some m)) = None \<longleftrightarrow>
      getHeader env url = None \<or> addSource_throws env \<or> addLayer_throws env \<or> fitBounds_throws env"
    by (rule aro_None_iff)
  show "addRasterOverlay env oid url None = (None, None)"
    by (simp add: addRasterOverlay_def)
  show "snd (addRasterOverlay env oid url (Some m)) = Some m" if "getHeader env url = None"
    using that by (simp add: aro_no_header)
next
  assume a: "getHeader env url \<noteq> None \<and> addSource_throws env"
  then have e: "addRasterOverlay env oid url (Some m) = (None, Some (cleared oid m))"
    by (simp add: aro_source_throws)
  show "\<not> hasOverlaySource (snd (addRasterOverlay env oid url (Some m))) oid"
    by (simp add: e hasOverlaySource_def getSource_None_iff cleared_ids)
  show "\<not> hasOverlayLayer (snd (addRasterOverlay env oid url (Some m))) oid"
    by (simp add: e hasOverlayLayer_def getLayer_None_iff cleared_ids)
next
  assume a: "getHeader env url \<noteq> None \<and> \<not> addSource_throws env \<and> addLayer_throws env"
  then have e: "addRasterOverlay env oid url (Some m) = (None, Some (withSource oid url m))"
    by (simp add: aro_layer_throws)
  show "hasOverlaySource (snd (addRasterOverlay env oid url (Some m))) oid"
    by (simp add: e hasOverlaySource_def getSource_None_iff with_ids)
  show "\<not> hasOverlayLayer (snd (addRasterOverlay env oid url (Some m))) oid"
    by (simp add: e hasOverlayLayer_def getLayer_None_iff with_ids)
next
  assume a: "getHeader env url \<noteq> None \<and> \<not> addSource_throws env \<and> \<not> addLayer_throws env \<and>
    fitBounds_throws env"
  then have e: "addRasterOverlay env oid url (Some m) = (None, Some (withLayer oid url m))"
    by (simp add: aro_fit_throws)
  show "hasOverlaySource (snd (addRasterOverlay env oid url (Some m))) oid"
    by (simp add: e hasOverlaySource_def getSource_None_iff with_ids)
  show "hasOverlayLayer (snd (addRasterOverlay env oid url (Some m))) oid"
    by (simp add: e hasOverlayLayer_def getLayer_None_iff with_ids)
qed

lemma added_loadedMap_a:
  "addRasterOverlay addLayerFaultEnv ''a'' ''blob:a'' (Some loadedMap) =
     (None, Some (withSource ''a'' ''blob:a'' loadedMap))"
  by (rule aro_layer_throws) (simp_all add: addLayerFaultEnv_def goodEnv_def)

lemma loadedMap_no_overlay_a: "\<not> hasOverlaySource (Some loadedMap) ''a''"
  by (simp add: hasOverlaySource_def loadedMap_def addLocationLayers_def addLayer_def addSource_def
      newMap_def pmtilesLayers_def mk_layer_def getSource_def overlaySourceId_def)

text \<open>The statement on the loaded map, for a fault in \<^verbatim>\<open>addLayer\<close> and for an unreadable header.\<close>

theorem addRasterOverlay_failure_leaves_state_witness:
  "getHeader addLayerFaultEnv ''blob:a'' \<noteq> None \<and> \<not> addSource_throws addLayerFaultEnv \<and>
   addLayer_throws addLayerFaultEnv \<and>
   fst (addRasterOverlay addLayerFaultEnv ''a'' ''blob:a'' (Some loadedMap)) = None \<and>
   \<not> hasOverlayLayer (snd (addRasterOverlay addLayerFaultEnv ''a'' ''blob:a'' (Some loadedMap))) ''a'' \<and>
   getHeader noHeaderEnv ''blob:a'' = None \<and>
   snd (addRasterOverlay noHeaderEnv ''a'' ''blob:a'' (Some loadedMap)) = Some loadedMap"
  using addRasterOverlay_failure_leaves_state [of addLayerFaultEnv "''a''" "''blob:a''" loadedMap]
    addRasterOverlay_failure_leaves_state [of noHeaderEnv "''a''" "''blob:a''" loadedMap]
  by (simp add: addLayerFaultEnv_def noHeaderEnv_def goodEnv_def)

text \<open>
  C2 as stated fails: on the loaded map, which has no source for the id, a call in
  which \<^verbatim>\<open>addLayer\<close> throws returns null and leaves the source it registered.
\<close>

theorem addRasterOverlay_keeps_source_after_failure:
  "fst (addRasterOverlay addLayerFaultEnv ''a'' ''blob:a'' (Some loadedMap)) = None \<and>
   \<not> hasOverlaySource (Some loadedMap) ''a'' \<and>
   hasOverlaySource (snd (addRasterOverlay addLayerFaultEnv ''a'' ''blob:a'' (Some loadedMap))) ''a''"
  using loadedMap_no_overlay_a
  by (simp add: added_loadedMap_a hasOverlaySource_def getSource_None_iff with_ids)

section \<open>The order of the groups\<close>



lemma js_sort_Cons: "js_sort cmp (x # xs) = insort_cmp cmp x (js_sort cmp xs)"
  by (simp add: js_sort_def)

lemma insort_default_last:
  assumes "g_id x = ''default''"
  shows "insort_cmp groupCompare x ys = ys @ [x]"
  using assms by (induction ys) (simp_all add: groupCompare_def)

lemma insort_user_group:
  assumes "g_id x \<noteq> ''default''"
    and "\<forall>y \<in> set us. g_id y \<noteq> ''default''"
    and "\<forall>y \<in> set ds. g_id y = ''default''"
  shows "insort_cmp groupCompare x (us @ ds) = insort_key g_order x us @ ds"
  using assms
proof (induction us)
  case Nil
  then show ?case by (cases ds) (simp_all add: groupCompare_def)
next
  case (Cons u us)
  then show ?case by (simp add: groupCompare_def)
qed

lemma sortedGroups_split:
  "sortedGroups gs =
     sort_key g_order (filter (\<lambda>g. g_id g \<noteq> ''default'') gs) @
     rev (filter (\<lambda>g. g_id g = ''default'') gs)"
proof (induction gs)
  case Nil
  then show ?case by (simp add: sortedGroups_def js_sort_def)
next
  case (Cons x gs)
  show ?case
  proof (cases "g_id x = ''default''")
    case True
    then show ?thesis
      using Cons by (simp add: sortedGroups_def js_sort_Cons insort_default_last)
  next
    case False
    have "insort_cmp groupCompare x (sortedGroups gs) =
            insort_key g_order x (sort_key g_order (filter (\<lambda>g. g_id g \<noteq> ''default'') gs)) @
            rev (filter (\<lambda>g. g_id g = ''default'') gs)"
      unfolding Cons by (rule insort_user_group) (use False in auto)
    then show ?thesis
      using False by (simp add: sortedGroups_def js_sort_Cons)
  qed
qed

lemma rev_short: "length xs \<le> 1 \<Longrightarrow> rev xs = xs"
  by (cases xs) auto

lemma two_sorted:
  assumes "mset xs = {#a, b#}" "f b < f a"
  shows "sort_key f xs = [b, a]"
proof -
  have "length xs = 2" using assms(1) by (metis size_mset size_add_mset size_empty numeral_2_eq_2)
  then obtain x y where xs: "xs = [x, y]"
    by (metis One_nat_def Suc_1 length_0_conv length_Suc_conv)
  with assms(1) have "(x = a \<and> y = b) \<or> (x = b \<and> y = a)"
    by (auto simp: add_eq_conv_ex)
  then show ?thesis using assms(2) xs by auto
qed

lemma three_groups:
  assumes ids: "g_id a \<noteq> ''default''" "g_id b \<noteq> ''default''" "g_id d = ''default''"
    and ord: "g_order b < g_order a"
    and gs: "mset gs = {#a, b, d#}"
  shows "sortedGroups gs = [b, a, d]"
proof -
  have u: "mset (filter (\<lambda>g. g_id g \<noteq> ''default'') gs) = {#a, b#}"
    using ids by (simp add: gs)
  have dd: "mset (filter (\<lambda>g. g_id g = ''default'') gs) = {#d#}"
    using ids by (simp add: gs)
  then have "filter (\<lambda>g. g_id g = ''default'') gs = [d]"
    by (metis mset_single_iff_right)
  then show ?thesis
    by (simp add: sortedGroups_split two_sorted [OF u ord])
qed

text \<open>
  C6. For a list of groups with at most one group of id \<^verbatim>\<open>default\<close>, \<open>sortedGroups\<close>
  lists the groups of other ids in ascending order of \<open>order\<close> (groups of equal order
  in their given order) and the group \<^verbatim>\<open>default\<close> last, whatever its order. For groups
  A of order 5, B of order 1 and the default group, the result is B, A, default for
  every arrangement of the three in the input.
\<close>

theorem sortedGroups_default_last:
  assumes "length (filter (\<lambda>g. g_id g = ''default'') gs) \<le> 1"
  shows "sortedGroups gs =
           sort_key g_order (filter (\<lambda>g. g_id g \<noteq> ''default'') gs) @
           filter (\<lambda>g. g_id g = ''default'') gs \<and>
         (g_id a \<noteq> ''default'' \<and> g_id b \<noteq> ''default'' \<and> g_id d = ''default'' \<and>
          g_order a = 5 \<and> g_order b = 1 \<and> mset xs = {#a, b, d#} \<longrightarrow>
            sortedGroups xs = [b, a, d])"
  using assms three_groups [of a b d xs]
  by (simp add: sortedGroups_split rev_short)

text \<open>The statement for the input default, A, B.\<close>

theorem sortedGroups_default_last_witness:
  "length (filter (\<lambda>g. g_id g = ''default'') [DEFAULT_GROUP, groupA, groupB]) \<le> 1 \<and>
   g_id groupA \<noteq> ''default'' \<and> g_id groupB \<noteq> ''default'' \<and> g_id DEFAULT_GROUP = ''default'' \<and>
   g_order groupA = 5 \<and> g_order groupB = 1 \<and>
   mset [DEFAULT_GROUP, groupA, groupB] = {#groupA, groupB, DEFAULT_GROUP#} \<and>
   sortedGroups [DEFAULT_GROUP, groupA, groupB] = [groupB, groupA, DEFAULT_GROUP]"
  using sortedGroups_default_last [of "[DEFAULT_GROUP, groupA, groupB]" groupA groupB DEFAULT_GROUP
      "[DEFAULT_GROUP, groupA, groupB]"]
  by (simp add: DEFAULT_GROUP_def groupA_def groupB_def)

section \<open>The overlay store: round trip and field updates\<close>

lemma filter_insort_fresh:
  assumes "\<forall>y \<in> set ys. key y \<noteq> key r"
  shows "filter (\<lambda>x. key x = key r) (insort_key f r ys) = [r]"
  using assms by (induction ys) auto

lemma filter_key_put:
  "filter (\<lambda>x. key x = k) (idb_put key r xs) =
     (if k = key r then [r] else filter (\<lambda>x. key x = k) xs)"
proof (cases "k = key r")
  case True
  then show ?thesis
    by (simp add: idb_put_def filter_insort_fresh)
next
  case False
  have "filter (\<lambda>x. key x = k) (filter (\<lambda>x. key x \<noteq> key r) xs) = filter (\<lambda>x. key x = k) xs"
    using False by (induction xs) auto
  then show ?thesis
    using False by (simp add: idb_put_def filter_insort_triv)
qed

lemma find_as_filter: "find P xs = (case filter P xs of [] \<Rightarrow> None | x # _ \<Rightarrow> Some x)"
  by (induction xs) auto

lemma idb_get_put:
  "idb_get key k (idb_put key r xs) = (if k = key r then Some r else idb_get key k xs)"
  by (simp add: idb_get_def find_as_filter filter_key_put)

lemma idb_get_key: "idb_get key k xs = Some r \<Longrightarrow> key r = k"
  by (auto simp: idb_get_def find_Some_iff)

lemma set_idb_put: "set (idb_put key r xs) = insert r {x \<in> set xs. key x \<noteq> key r}"
  by (auto simp: idb_put_def set_insort_key)

lemma filter_loaded:
  "filter (\<lambda>v. so_id v = k) (map (normalizeOverlay now) xs) =
     map (normalizeOverlay now) (filter (\<lambda>x. ro_id x = k) xs)"
  by (induction xs) (simp_all add: normalizeOverlay_def)

text \<open>
  C8. When the database can be opened, \<open>saveOverlay\<close> with opacity 0.8, visible and
  group \<^verbatim>\<open>default\<close> is fulfilled, and \<open>loadAllOverlays\<close> afterwards returns exactly one
  record with that id: it has the given file name and data, opacity 0.8, visible,
  group \<^verbatim>\<open>default\<close>, and as time stamp the reading \<open>now\<close> of the clock taken by the
  save, which is not before the time of the call.
\<close>

theorem save_then_load_roundtrip:
  assumes "available d" and "callTime \<le> now"
  shows "fst (saveOverlay now oid name dat 0.8 True ''default'' d) = Fulfilled () \<and>
         (\<exists>recs. loadAllOverlays later (snd (saveOverlay now oid name dat 0.8 True ''default'' d))
                    = Fulfilled recs \<and>
                 filter (\<lambda>v. so_id v = oid) recs =
                   [\<lparr>so_id = oid, so_filename = name, so_data = dat, so_opacity = 0.8,
                     so_visible = True, so_groupId = ''default'', so_timestamp = now,
                     so_url = None\<rparr>] \<and>
                 (\<forall>v \<in> set recs. so_id v = oid \<longrightarrow> callTime \<le> so_timestamp v))"
proof -
  let ?d = "snd (saveOverlay now oid name dat 0.8 True ''default'' d)"
  let ?v = "\<lparr>so_id = oid, so_filename = name, so_data = dat, so_opacity = 0.8,
             so_visible = True, so_groupId = ''default'', so_timestamp = now, so_url = None\<rparr>"
  have a: "available ?d" using assms(1) by (simp add: saveOverlay_def)
  have f: "filter (\<lambda>v. so_id v = oid) (map (normalizeOverlay later) (overlay_store ?d)) = [?v]"
    using assms(1)
    by (simp add: saveOverlay_def filter_loaded filter_key_put normalizeOverlay_def)
  have t: "\<forall>v \<in> set (map (normalizeOverlay later) (overlay_store ?d)). so_id v = oid \<longrightarrow> callTime \<le> so_timestamp v"
  proof (intro ballI impI)
    fix v assume "v \<in> set (map (normalizeOverlay later) (overlay_store ?d))" "so_id v = oid"
    then have "v \<in> set (filter (\<lambda>v. so_id v = oid) (map (normalizeOverlay later) (overlay_store ?d)))"
      by simp
    then have "v = ?v" unfolding f by simp
    then show "callTime \<le> so_timestamp v" using assms(2) by simp
  qed
  show ?thesis
    using assms(1) a f t by (simp add: loadAllOverlays_def saveOverlay_def)
qed

text \<open>The statement for a save into the sample database, whose record it replaces.\<close>

theorem save_then_load_roundtrip_witness:
  "available sampleDb \<and> (1700000000500::nat) \<le> 1700000000777 \<and>
   (\<exists>recs. loadAllOverlays 1700000009000
              (snd (saveOverlay 1700000000777 ''shikoku'' ''shikoku'' [0x50] 0.8 True ''default'' sampleDb))
              = Fulfilled recs \<and>
           filter (\<lambda>v. so_id v = ''shikoku'') recs =
             [\<lparr>so_id = ''shikoku'', so_filename = ''shikoku'', so_data = [0x50], so_opacity = 0.8,
               so_visible = True, so_groupId = ''default'', so_timestamp = 1700000000777,
               so_url = None\<rparr>])"
proof -
  have a: "available sampleDb" by (simp add: sampleDb_def)
  have b: "(1700000000500::nat) \<le> 1700000000777" by simp
  from save_then_load_roundtrip [OF a b, of "''shikoku''" "''shikoku''" "[0x50]" 1700000009000]
  show ?thesis using a b by blast
qed

lemma as_raw_full:
  assumes "ro_opacity r = Some o0" "ro_visible r = Some v0" "ro_groupId r = Some g0"
    "ro_timestamp r = Some t0"
  shows "as_raw (normalizeOverlay now r) = r"
    and "as_raw ((normalizeOverlay now r)\<lparr>so_opacity := x\<rparr>) = r\<lparr>ro_opacity := Some x\<rparr>"
    and "as_raw ((normalizeOverlay now r)\<lparr>so_visible := y\<rparr>) = r\<lparr>ro_visible := Some y\<rparr>"
  using assms by (cases r; simp add: as_raw_def normalizeOverlay_def)+

lemma updateRecord_absent:
  "available d \<Longrightarrow> idb_get ro_id oid (overlay_store d) = None \<Longrightarrow>
   updateRecord now oid assign d = (Fulfilled (), d)"
  by (simp add: updateRecord_def)

lemma updateRecord_present:
  assumes "available d" "idb_get ro_id oid (overlay_store d) = Some r"
    and "ro_id (as_raw (assign (normalizeOverlay now r))) = oid"
  shows "fst (updateRecord now oid assign d) = Fulfilled ()"
    and "idb_get ro_id k (overlay_store (snd (updateRecord now oid assign d))) =
           (if k = oid then Some (as_raw (assign (normalizeOverlay now r)))
            else idb_get ro_id k (overlay_store d))"
    and "group_store (snd (updateRecord now oid assign d)) = group_store d"
  using assms by (simp_all add: updateRecord_def idb_get_put)

text \<open>
  C9. Each field helper is one transaction on the database. For a stored record with
  every field present, \<open>updateOverlayOpacity\<close> replaces it by the same record with the
  new opacity and \<open>updateOverlayVisibility\<close> by the same record with the new
  visibility; id, file name, data, the other of the two fields, group, time stamp and
  URL stay as they were, and so does every record of another id. When no record has
  the id, the helper is fulfilled and the database is unchanged.
\<close>

theorem field_update_changes_only_its_field:
  assumes "available d"
  shows
    "(idb_get ro_id oid (overlay_store d) = Some r \<and>
      ro_opacity r \<noteq> None \<and> ro_visible r \<noteq> None \<and> ro_groupId r \<noteq> None \<and> ro_timestamp r \<noteq> None \<longrightarrow>
        fst (updateOverlayOpacity now oid x d) = Fulfilled () \<and>
        idb_get ro_id oid (overlay_store (snd (updateOverlayOpacity now oid x d)))
          = Some (r\<lparr>ro_opacity := Some x\<rparr>) \<and>
        fst (updateOverlayVisibility now oid y d) = Fulfilled () \<and>
        idb_get ro_id oid (overlay_store (snd (updateOverlayVisibility now oid y d)))
          = Some (r\<lparr>ro_visible := Some y\<rparr>) \<and>
        (k \<noteq> oid \<longrightarrow>
           idb_get ro_id k (overlay_store (snd (updateOverlayOpacity now oid x d)))
             = idb_get ro_id k (overlay_store d) \<and>
           idb_get ro_id k (overlay_store (snd (updateOverlayVisibility now oid y d)))
             = idb_get ro_id k (overlay_store d))) \<and>
     (idb_get ro_id oid (overlay_store d) = None \<longrightarrow>
        updateOverlayOpacity now oid x d = (Fulfilled (), d) \<and>
        updateOverlayVisibility now oid y d = (Fulfilled (), d))"
proof (intro conjI impI)
  assume a: "idb_get ro_id oid (overlay_store d) = Some r \<and>
      ro_opacity r \<noteq> None \<and> ro_visible r \<noteq> None \<and> ro_groupId r \<noteq> None \<and> ro_timestamp r \<noteq> None"
  then have g: "idb_get ro_id oid (overlay_store d) = Some r" by simp
  then have rid: "ro_id r = oid" by (rule idb_get_key)
  from a obtain o0 v0 g0 t0 where f: "ro_opacity r = Some o0" "ro_visible r = Some v0"
    "ro_groupId r = Some g0" "ro_timestamp r = Some t0" by auto
  note full = as_raw_full [OF f]
  have io: "ro_id (as_raw ((normalizeOverlay now r)\<lparr>so_opacity := x\<rparr>)) = oid"
    using rid by (simp add: full)
  have iv: "ro_id (as_raw ((normalizeOverlay now r)\<lparr>so_visible := y\<rparr>)) = oid"
    using rid by (simp add: full)
  have po1: "fst (updateRecord now oid (\<lambda>u. u\<lparr>so_opacity := x\<rparr>) d) = Fulfilled ()"
    by (rule updateRecord_present(1) [where assign = "\<lambda>u. u\<lparr>so_opacity := x\<rparr>" and r = r])
      (use assms g io in simp_all)
  have po2: "idb_get ro_id k' (overlay_store (snd (updateRecord now oid (\<lambda>u. u\<lparr>so_opacity := x\<rparr>) d))) =
           (if k' = oid then Some (r\<lparr>ro_opacity := Some x\<rparr>) else idb_get ro_id k' (overlay_store d))"
    for k'
    by (subst updateRecord_present(2) [where assign = "\<lambda>u. u\<lparr>so_opacity := x\<rparr>" and r = r])
      (use assms g io in \<open>simp_all add: full\<close>)
  have pv1: "fst (updateRecord now oid (\<lambda>u. u\<lparr>so_visible := y\<rparr>) d) = Fulfilled ()"
    by (rule updateRecord_present(1) [where assign = "\<lambda>u. u\<lparr>so_visible := y\<rparr>" and r = r])
      (use assms g iv in simp_all)
  have pv2: "idb_get ro_id k' (overlay_store (snd (updateRecord now oid (\<lambda>u. u\<lparr>so_visible := y\<rparr>) d))) =
           (if k' = oid then Some (r\<lparr>ro_visible := Some y\<rparr>) else idb_get ro_id k' (overlay_store d))"
    for k'
    by (subst updateRecord_present(2) [where assign = "\<lambda>u. u\<lparr>so_visible := y\<rparr>" and r = r])
      (use assms g iv in \<open>simp_all add: full\<close>)
  show "fst (updateOverlayOpacity now oid x d) = Fulfilled ()"
    unfolding updateOverlayOpacity_def by (rule po1)
  show "idb_get ro_id oid (overlay_store (snd (updateOverlayOpacity now oid x d)))
          = Some (r\<lparr>ro_opacity := Some x\<rparr>)"
    unfolding updateOverlayOpacity_def by (simp add: po2)
  show "fst (updateOverlayVisibility now oid y d) = Fulfilled ()"
    unfolding updateOverlayVisibility_def by (rule pv1)
  show "idb_get ro_id oid (overlay_store (snd (updateOverlayVisibility now oid y d)))
          = Some (r\<lparr>ro_visible := Some y\<rparr>)"
    unfolding updateOverlayVisibility_def by (simp add: pv2)
  show "idb_get ro_id k (overlay_store (snd (updateOverlayOpacity now oid x d)))
             = idb_get ro_id k (overlay_store d)" if "k \<noteq> oid"
    unfolding updateOverlayOpacity_def using that by (simp add: po2)
  show "idb_get ro_id k (overlay_store (snd (updateOverlayVisibility now oid y d)))
             = idb_get ro_id k (overlay_store d)" if "k \<noteq> oid"
    unfolding updateOverlayVisibility_def using that by (simp add: pv2)
next
  assume n: "idb_get ro_id oid (overlay_store d) = None"
  show "updateOverlayOpacity now oid x d = (Fulfilled (), d)"
    unfolding updateOverlayOpacity_def by (rule updateRecord_absent [OF assms n])
  show "updateOverlayVisibility now oid y d = (Fulfilled (), d)"
    unfolding updateOverlayVisibility_def by (rule updateRecord_absent [OF assms n])
qed

lemma sample_get:
  "idb_get ro_id ''shikoku'' (overlay_store sampleDb) = Some sampleRecord"
  "idb_get ro_id ''kyushu'' (overlay_store sampleDb) = None"
  "ro_opacity sampleRecord \<noteq> None \<and> ro_visible sampleRecord \<noteq> None \<and>
   ro_groupId sampleRecord \<noteq> None \<and> ro_timestamp sampleRecord \<noteq> None"
  by (simp_all add: sampleDb_def sampleRecord_def idb_get_def)

text \<open>The statement on the sample database, for its record and for an id it lacks.\<close>

theorem field_update_changes_only_its_field_witness:
  "available sampleDb \<and>
   idb_get ro_id ''shikoku'' (overlay_store sampleDb) = Some sampleRecord \<and>
   ro_opacity sampleRecord \<noteq> None \<and> ro_visible sampleRecord \<noteq> None \<and>
   ro_groupId sampleRecord \<noteq> None \<and> ro_timestamp sampleRecord \<noteq> None \<and>
   idb_get ro_id ''shikoku'' (overlay_store (snd (updateOverlayOpacity 1700000005000 ''shikoku'' 0.3 sampleDb)))
     = Some (sampleRecord\<lparr>ro_opacity := Some 0.3\<rparr>) \<and>
   idb_get ro_id ''shikoku'' (overlay_store (snd (updateOverlayVisibility 1700000005000 ''shikoku'' True sampleDb)))
     = Some (sampleRecord\<lparr>ro_visible := Some True\<rparr>) \<and>
   idb_get ro_id ''kyushu'' (overlay_store sampleDb) = None \<and>
   updateOverlayOpacity 1700000005000 ''kyushu'' 0.3 sampleDb = (Fulfilled (), sampleDb)"
proof -
  have a: "available sampleDb" by (simp add: sampleDb_def)
  note t1 = field_update_changes_only_its_field [OF a, of "''shikoku''" sampleRecord 1700000005000 "0.3" True "''kyushu''"]
  note t2 = field_update_changes_only_its_field [OF a, of "''kyushu''" sampleRecord 1700000005000 "0.3" True "''shikoku''"]
  from t1 sample_get(1,3) have
    "idb_get ro_id ''shikoku'' (overlay_store (snd (updateOverlayOpacity 1700000005000 ''shikoku'' 0.3 sampleDb)))
       = Some (sampleRecord\<lparr>ro_opacity := Some 0.3\<rparr>)"
    "idb_get ro_id ''shikoku'' (overlay_store (snd (updateOverlayVisibility 1700000005000 ''shikoku'' True sampleDb)))
       = Some (sampleRecord\<lparr>ro_visible := Some True\<rparr>)"
    by blast+
  moreover from t2 sample_get(2) have
    "updateOverlayOpacity 1700000005000 ''kyushu'' 0.3 sampleDb = (Fulfilled (), sampleDb)"
    by blast
  ultimately show ?thesis using a sample_get by blast
qed

section \<open>The default group\<close>

lemma distinct_idb_put:
  assumes "distinct (map key xs)"
  shows "distinct (map key (idb_put key r xs))"
proof -
  let ?ys = "filter (\<lambda>x. key x \<noteq> key r) xs"
  have "mset (map key (idb_put key r xs)) = mset (key r # map key ?ys)"
    by (simp add: idb_put_def)
  then have "distinct (map key (idb_put key r xs)) = distinct (key r # map key ?ys)"
    by (rule mset_eq_imp_distinct_iff)
  moreover have "distinct (map key ?ys)"
    using assms by (rule distinct_map_filter)
  moreover have "key r \<notin> set (map key ?ys)" by auto
  ultimately show ?thesis by simp
qed






lemma group_store_updateRecord [simp]:
  "group_store (snd (updateRecord now oid assign d)) = group_store d"
  by (simp add: updateRecord_def split: option.splits)

lemma group_store_update_helpers [simp]:
  "group_store (snd (updateOverlayOpacity now oid x d)) = group_store d"
  "group_store (snd (updateOverlayVisibility now oid y d)) = group_store d"
  "group_store (snd (updateOverlayGroup now oid g d)) = group_store d"
  "group_store (snd (updateOverlayFilename now oid n d)) = group_store d"
  by (simp_all add: updateOverlayOpacity_def updateOverlayVisibility_def updateOverlayGroup_def
      updateOverlayFilename_def)

lemma group_store_fold_visibility [simp]:
  "group_store (foldl (\<lambda>d ov. snd (updateOverlayVisibility now oid (f ov) d)) d xs) = group_store d"
  by (induction xs arbitrary: d) simp_all

lemma group_store_fold_group [simp]:
  "group_store (foldl (\<lambda>d ov. snd (updateOverlayGroup now (f ov) g d)) d xs) = group_store d"
  by (induction xs arbitrary: d) simp_all

lemma group_store_saveOverlay [simp]:
  "group_store (snd (saveOverlay now oid n dat x v g d)) = group_store d"
  by (simp add: saveOverlay_def)

lemma group_store_deleteOverlay [simp]:
  "group_store (snd (deleteOverlay oid d)) = group_store d"
  by (simp add: deleteOverlay_def)

lemma restoreOverlays_groups [simp]:
  "overlayGroups (restoreOverlays br xs s) = overlayGroups s"
  "db (restoreOverlays br xs s) = db s"
  by (induction xs arbitrary: s; simp add: Let_def split: prod.splits option.splits)+



lemma show_nat_not_default: "''group-'' @ show_nat n \<noteq> ''default''"
  by simp









lemma filter_default_kept:
  "gid \<noteq> ''default'' \<Longrightarrow>
   filter (\<lambda>g. g_id g = ''default'') (filter (\<lambda>g. g_id g \<noteq> gid) gs) =
   filter (\<lambda>g. g_id g = ''default'') gs"
  by (induction gs) auto






lemma idb_get_mem: "idb_get key k xs = Some r \<Longrightarrow> r \<in> set xs \<and> key r = k"
  by (auto simp: idb_get_def find_Some_iff)

lemma ids_updateRecord:
  assumes "\<And>u. so_id (assign u) = so_id u"
  shows "ro_id ` set (overlay_store (snd (updateRecord now oid assign d))) =
         ro_id ` set (overlay_store d)"
proof (cases "available d")
  case False
  then show ?thesis by (simp add: updateRecord_def)
next
  case True
  show ?thesis
  proof (cases "idb_get ro_id oid (overlay_store d)")
    case None
    then show ?thesis using True by (simp add: updateRecord_def)
  next
    case (Some r)
    then have m: "r \<in> set (overlay_store d)" "ro_id r = oid" by (auto dest: idb_get_mem)
    let ?r' = "as_raw (assign (normalizeOverlay now r))"
    have k: "ro_id ?r' = oid"
      using m(2) assms by (simp add: as_raw_def normalizeOverlay_def)
    have "set (idb_put ro_id ?r' (overlay_store d)) =
            insert ?r' {x \<in> set (overlay_store d). ro_id x \<noteq> oid}"
      by (auto simp: idb_put_def set_insort_key k)
    then have "ro_id ` set (idb_put ro_id ?r' (overlay_store d)) = ro_id ` set (overlay_store d)"
      using m k by (auto simp: image_iff)
    then show ?thesis using True Some by (simp add: updateRecord_def)
  qed
qed

lemma ids_fold_updateOverlayGroup:
  "ro_id ` set (overlay_store (foldl (\<lambda>d ov. snd (updateOverlayGroup now (f ov) g d)) d xs)) =
   ro_id ` set (overlay_store d)"
proof (induction xs arbitrary: d)
  case Nil
  then show ?case by simp
next
  case (Cons x xs)
  show ?case
    by (simp add: Cons.IH) (simp add: updateOverlayGroup_def ids_updateRecord)
qed

lemma overlay_store_deleteGroup [simp]:
  "overlay_store (snd (deleteGroup gid d)) = overlay_store d"
  by (simp add: deleteGroup_def)

lemma available_updateRecord [simp]:
  "available (snd (updateRecord now oid assign d)) = available d"
  by (simp add: updateRecord_def split: option.splits)



lemma available_fold_updateOverlayGroup [simp]:
  "available (foldl (\<lambda>d ov. snd (updateOverlayGroup now (f ov) g d)) d xs) = available d"
  by (induction xs arbitrary: d) (simp_all add: updateOverlayGroup_def)















section \<open>Adding an overlay whose id is stored already\<close>

lemma filter_insert_before:
  assumes "b \<in> layer_id ` set xs" "P l" "\<forall>x \<in> set xs. \<not> P x"
  shows "filter P (insert_before b l xs) = [l]"
  using assms by (induction xs) (auto simp: filter_empty_conv)

lemma layers_withLayer_one:
  "filter (\<lambda>l. layer_id l = overlayLayerId oid) (layers (withLayer oid url m)) =
     [mk_layer (overlayLayerId oid) (Some (overlaySourceId oid)) True [(''raster-opacity'', 0.8)]]"
proof -
  let ?l = "mk_layer (overlayLayerId oid) (Some (overlaySourceId oid)) True [(''raster-opacity'', 0.8)]"
  let ?m3 = "withSource oid url m"
  have no: "\<forall>x \<in> set (layers ?m3). layer_id x \<noteq> overlayLayerId oid"
    using with_ids(2) [of oid url m] by auto
  have lid: "layer_id ?l = overlayLayerId oid" by (simp add: mk_layer_def)
  have fn: "find (\<lambda>x. layer_id x = layer_id ?l) (layers ?m3) = None"
    unfolding lid using no by (simp add: find_None_iff)
  have e: "filter (\<lambda>l. layer_id l = overlayLayerId oid) (layers ?m3) = []"
    using no by (simp add: filter_empty_conv)
  show ?thesis
  proof (cases "getLayer ?m3 ''user-location-accuracy'' \<noteq> None")
    case True
    then have b: "''user-location-accuracy'' \<in> layer_id ` set (layers ?m3)"
      by (simp add: getLayer_None_iff)
    have "layers (withLayer oid url m) = insert_before ''user-location-accuracy'' ?l (layers ?m3)"
      using True fn by (simp add: withLayer_def addLayer_def)
    then show ?thesis
      using filter_insert_before [OF b, of "\<lambda>l. layer_id l = overlayLayerId oid" ?l] no lid
      by simp
  next
    case False
    then have "layers (withLayer oid url m) = layers ?m3 @ [?l]"
      using fn by (simp add: withLayer_def addLayer_def)
    then show ?thesis using e lid by simp
  qed
qed

lemma sources_withLayer_one:
  "filter (\<lambda>(k, v). k = overlaySourceId oid) (sources (withLayer oid url m)) =
     [(overlaySourceId oid, RasterSource (''pmtiles://'' @ url) 256)]"
proof -
  have no: "overlaySourceId oid \<notin> fst ` set (sources (cleared oid m))"
    by (simp add: cleared_ids)
  then have e: "filter (\<lambda>(k, v). k = overlaySourceId oid) (sources (cleared oid m)) = []"
    by (auto simp: filter_empty_conv image_iff)
  have "map_of (sources (cleared oid m)) (overlaySourceId oid) = None"
    using no by (simp add: map_of_eq_None_iff)
  then have "sources (withSource oid url m) =
               sources (cleared oid m) @ [(overlaySourceId oid, RasterSource (''pmtiles://'' @ url) 256)]"
    by (simp add: withSource_def addSource_def)
  then show ?thesis using e by (simp add: withLayer_def)
qed

lemma handleAddOverlay_failed:
  assumes "addRasterOverlay (overlayEnv br) (stripPmtiles fname) (createObjectURL br dat) (mapRef s)
             = (None, m')"
  shows "handleAddOverlay br now (Some (fname, dat)) s = s\<lparr>mapRef := m'\<rparr>"
  using assms by (simp add: handleAddOverlay_def Let_def)

lemma handleAddOverlay_added:
  assumes "addRasterOverlay (overlayEnv br) (stripPmtiles fname) (createObjectURL br dat) (mapRef s)
             = (Some i, m')"
  shows "handleAddOverlay br now (Some (fname, dat)) s =
           s\<lparr>mapRef := m',
             overlays := filter (\<lambda>ov. oi_id ov \<noteq> stripPmtiles fname) (overlays s) @
                 [\<lparr>oi_id = od_id i, oi_name = stripPmtiles fname, oi_bounds = od_bounds i,
                   oi_opacity = 0.8, oi_visible = True, oi_groupId = ''default''\<rparr>],
             db := snd (saveOverlay now (stripPmtiles fname) (stripPmtiles fname) dat 0.8 True
                          ''default'' (db s))\<rparr>"
  using assms by (simp add: handleAddOverlay_def Let_def)

lemma distinct_saveOverlay:
  "distinct (map ro_id (overlay_store d)) \<Longrightarrow>
   distinct (map ro_id (overlay_store (snd (saveOverlay now oid n dat x v g d))))"
  by (simp add: saveOverlay_def distinct_idb_put)

text \<open>
  C4 (as amended). Adding a file whose derived id is in the store already is neither
  rejected nor a no-op: when \<open>addRasterOverlay\<close> succeeds, \<^verbatim>\<open>put\<close> overwrites the record
  of that id with the new data, opacity 0.8, visible, group \<^verbatim>\<open>default\<close> and a new time
  stamp, and the source, the layer and the list entry of the id are replaced. After the
  add the store has exactly one record of the id, the records of other ids are as
  before, keys stay unique, and the renderer has exactly one layer and one source and
  the list exactly one entry for the id.
\<close>

theorem readd_replaces_overlay:
  assumes "available (db s)" and "mapRef s = Some m"
    and "getHeader (overlayEnv br) (createObjectURL br dat) \<noteq> None"
    and "\<not> addSource_throws (overlayEnv br)" and "\<not> addLayer_throws (overlayEnv br)"
    and "\<not> fitBounds_throws (overlayEnv br)"
  shows
    "filter (\<lambda>r. ro_id r = stripPmtiles fname)
       (overlay_store (db (handleAddOverlay br now (Some (fname, dat)) s))) =
       [\<lparr>ro_id = stripPmtiles fname, ro_filename = stripPmtiles fname, ro_data = dat,
         ro_opacity = Some 0.8, ro_visible = Some True, ro_groupId = Some ''default'',
         ro_timestamp = Some now, ro_url = None\<rparr>] \<and>
     (k \<noteq> stripPmtiles fname \<longrightarrow>
        filter (\<lambda>r. ro_id r = k) (overlay_store (db (handleAddOverlay br now (Some (fname, dat)) s))) =
        filter (\<lambda>r. ro_id r = k) (overlay_store (db s))) \<and>
     (distinct (map ro_id (overlay_store (db s))) \<longrightarrow>
        distinct (map ro_id (overlay_store (db (handleAddOverlay br now (Some (fname, dat)) s))))) \<and>
     (\<exists>m'. mapRef (handleAddOverlay br now (Some (fname, dat)) s) = Some m' \<and>
           length (filter (\<lambda>l. layer_id l = overlayLayerId (stripPmtiles fname)) (layers m')) = 1 \<and>
           length (filter (\<lambda>(k, v). k = overlaySourceId (stripPmtiles fname)) (sources m')) = 1) \<and>
     length (filter (\<lambda>ov. oi_id ov = stripPmtiles fname)
               (overlays (handleAddOverlay br now (Some (fname, dat)) s))) = 1"
proof -
  let ?oid = "stripPmtiles fname"
  let ?url = "createObjectURL br dat"
  from assms(3) obtain h where h: "getHeader (overlayEnv br) ?url = Some h" by auto
  let ?i = "\<lparr>od_id = ?oid, od_name = ?oid,
            od_bounds = (minLon h, minLat h, maxLon h, maxLat h), od_opacity = 0.8\<rparr>"
  let ?m' = "(withLayer ?oid ?url m)\<lparr>camera := camera (withLayer ?oid ?url m) @
              [FitBounds (minLon h, minLat h, maxLon h, maxLat h) 20 1500]\<rparr>"
  have r: "addRasterOverlay (overlayEnv br) ?oid ?url (mapRef s) = (Some ?i, Some ?m')"
    unfolding assms(2) using h assms(4-6) by (rule aro_ok)
  note e = handleAddOverlay_added [OF r, of now]
  have 1: "filter (\<lambda>r. ro_id r = ?oid) (overlay_store (db (handleAddOverlay br now (Some (fname, dat)) s))) =
       [\<lparr>ro_id = ?oid, ro_filename = ?oid, ro_data = dat,
         ro_opacity = Some 0.8, ro_visible = Some True, ro_groupId = Some ''default'',
         ro_timestamp = Some now, ro_url = None\<rparr>]"
    using assms(1) by (simp add: e saveOverlay_def filter_key_put)
  have 2: "filter (\<lambda>r. ro_id r = k) (overlay_store (db (handleAddOverlay br now (Some (fname, dat)) s))) =
        filter (\<lambda>r. ro_id r = k) (overlay_store (db s))" if "k \<noteq> ?oid"
    using assms(1) that by (simp add: e saveOverlay_def filter_key_put)
  have 3: "distinct (map ro_id (overlay_store (db (handleAddOverlay br now (Some (fname, dat)) s))))"
    if "distinct (map ro_id (overlay_store (db s)))"
    using that by (simp add: e distinct_saveOverlay)
  have 4: "mapRef (handleAddOverlay br now (Some (fname, dat)) s) = Some ?m'"
    by (simp add: e)
  have 5: "length (filter (\<lambda>l. layer_id l = overlayLayerId ?oid) (layers ?m')) = 1"
    by (simp add: layers_withLayer_one)
  have 6: "length (filter (\<lambda>(k, v). k = overlaySourceId ?oid) (sources ?m')) = 1"
    by (simp add: sources_withLayer_one)
  have 7: "length (filter (\<lambda>ov. oi_id ov = ?oid)
               (overlays (handleAddOverlay br now (Some (fname, dat)) s))) = 1"
    by (simp add: e)
  from 1 2 3 4 5 6 7 show ?thesis by blast
qed

lemma sampleBrowser_facts:
  "getHeader (overlayEnv sampleBrowser) u = Some sampleHeader"
  "\<not> addSource_throws (overlayEnv sampleBrowser)"
  "\<not> addLayer_throws (overlayEnv sampleBrowser)"
  "\<not> fitBounds_throws (overlayEnv sampleBrowser)"
  by (simp_all add: sampleBrowser_def goodEnv_def)

lemma sample_add:
  assumes "mapRef s \<noteq> None"
  shows "db (handleAddOverlay sampleBrowser now (Some (fname, dat)) s) =
           snd (saveOverlay now (stripPmtiles fname) (stripPmtiles fname) dat 0.8 True ''default'' (db s))"
    and "mapRef (handleAddOverlay sampleBrowser now (Some (fname, dat)) s) \<noteq> None"
proof -
  from assms obtain m where m: "mapRef s = Some m" by auto
  note r = aro_ok [where env = "overlayEnv sampleBrowser" and url = "createObjectURL sampleBrowser dat"
      and oid = "stripPmtiles fname" and m = m, OF sampleBrowser_facts]
  note e = handleAddOverlay_added [of sampleBrowser fname dat s, unfolded m, OF r, of now]
  show "db (handleAddOverlay sampleBrowser now (Some (fname, dat)) s) =
           snd (saveOverlay now (stripPmtiles fname) (stripPmtiles fname) dat 0.8 True ''default'' (db s))"
    by (simp add: e)
  show "mapRef (handleAddOverlay sampleBrowser now (Some (fname, dat)) s) \<noteq> None"
    by (simp add: e)
qed

lemma opacity_change:
  "db (handleOverlayOpacityChange now oid x s) = snd (updateOverlayOpacity now oid x (db s))"
  "mapRef s \<noteq> None \<Longrightarrow> mapRef (handleOverlayOpacityChange now oid x s) \<noteq> None"
  by (simp_all add: handleOverlayOpacityChange_def setOverlayOpacity_def)

lemma strip_examples:
  "stripPmtiles ''shikoku.pmtiles'' = ''shikoku''"
  "stripPmtiles ''shikoku.PMTILES'' = ''shikoku''"
  by (simp_all add: stripPmtiles_def pmtilesSuffix_def)

lemma screen_run_snoc: "screen_run (es @ [e]) s = screen_on e (screen_run es s)"
  by (simp add: screen_run_def)

lemma after_firstAdd:
  "mapRef (screen_run firstAdd (initialScreen emptyDb)) \<noteq> None"
  "db (screen_run firstAdd (initialScreen emptyDb)) =
     emptyDb\<lparr>overlay_store :=
       [\<lparr>ro_id = ''shikoku'', ro_filename = ''shikoku'', ro_data = [0x50, 0x4D],
         ro_opacity = Some 0.3, ro_visible = Some True, ro_groupId = Some ''default'',
         ro_timestamp = Some 1700000001000, ro_url = None\<rparr>]\<rparr>"
proof -
  let ?s1 = "handleMapLoaded (initialScreen emptyDb)"
  let ?s2 = "handleAddOverlay sampleBrowser 1700000001000 (Some (''shikoku.pmtiles'', [0x50, 0x4D])) ?s1"
  let ?s3 = "handleOverlayOpacityChange 1700000002000 ''shikoku'' 0.3 ?s2"
  have run: "screen_run firstAdd (initialScreen emptyDb) = ?s3"
    by (simp add: firstAdd_def screen_run_def)
  have m1: "mapRef ?s1 \<noteq> None" and d1: "db ?s1 = emptyDb"
    by (simp_all add: handleMapLoaded_def initialScreen_def)
  have d2: "db ?s2 = emptyDb\<lparr>overlay_store :=
       [\<lparr>ro_id = ''shikoku'', ro_filename = ''shikoku'', ro_data = [0x50, 0x4D],
         ro_opacity = Some 0.8, ro_visible = Some True, ro_groupId = Some ''default'',
         ro_timestamp = Some 1700000001000, ro_url = None\<rparr>]\<rparr>"
    unfolding sample_add(1) [OF m1] d1 strip_examples
    by (simp add: saveOverlay_def emptyDb_def idb_put_def)
  have m2: "mapRef ?s2 \<noteq> None" by (rule sample_add(2) [OF m1])
  show "mapRef (screen_run firstAdd (initialScreen emptyDb)) \<noteq> None"
    unfolding run by (rule opacity_change(2) [OF m2])
  show "db (screen_run firstAdd (initialScreen emptyDb)) =
     emptyDb\<lparr>overlay_store :=
       [\<lparr>ro_id = ''shikoku'', ro_filename = ''shikoku'', ro_data = [0x50, 0x4D],
         ro_opacity = Some 0.3, ro_visible = Some True, ro_groupId = Some ''default'',
         ro_timestamp = Some 1700000001000, ro_url = None\<rparr>]\<rparr>"
    unfolding run opacity_change(1) d2
    by (simp add: updateOverlayOpacity_def updateRecord_def emptyDb_def
        idb_get_def idb_put_def as_raw_def normalizeOverlay_def)
qed

text \<open>
  C4 as stated fails: after the user has set the opacity of \<^verbatim>\<open>shikoku\<close> to 0.3, adding
  \<^verbatim>\<open>shikoku.PMTILES\<close> replaces the stored record by one with the new data, opacity 0.8
  and a new time stamp.
\<close>

theorem readd_overwrites_record:
  "idb_get ro_id ''shikoku'' (overlay_store (db (screen_run firstAdd (initialScreen emptyDb)))) =
     Some \<lparr>ro_id = ''shikoku'', ro_filename = ''shikoku'', ro_data = [0x50, 0x4D],
           ro_opacity = Some 0.3, ro_visible = Some True, ro_groupId = Some ''default'',
           ro_timestamp = Some 1700000001000, ro_url = None\<rparr> \<and>
   idb_get ro_id ''shikoku''
     (overlay_store (db (screen_run (firstAdd @ [secondAdd]) (initialScreen emptyDb)))) =
     Some \<lparr>ro_id = ''shikoku'', ro_filename = ''shikoku'', ro_data = [0x51],
           ro_opacity = Some 0.8, ro_visible = Some True, ro_groupId = Some ''default'',
           ro_timestamp = Some 1700000003000, ro_url = None\<rparr> \<and>
   db (screen_run (firstAdd @ [secondAdd]) (initialScreen emptyDb)) \<noteq>
     db (screen_run firstAdd (initialScreen emptyDb))"
proof -
  let ?s3 = "screen_run firstAdd (initialScreen emptyDb)"
  have d4: "db (screen_run (firstAdd @ [secondAdd]) (initialScreen emptyDb)) =
          snd (saveOverlay 1700000003000 ''shikoku'' ''shikoku'' [0x51] 0.8 True ''default'' (db ?s3))"
    unfolding screen_run_snoc secondAdd_def screen_on.simps sample_add(1) [OF after_firstAdd(1)]
      strip_examples
    by (rule refl)
  show ?thesis
    unfolding d4 after_firstAdd(2)
    by (simp add: saveOverlay_def emptyDb_def idb_get_def idb_put_def)
qed

lemma sampleScreen_loaded:
  "available (db (handleMapLoaded sampleScreen))"
  "mapRef (handleMapLoaded sampleScreen) = Some loadedMap"
  "idb_get ro_id ''shikoku'' (overlay_store (db (handleMapLoaded sampleScreen))) = Some sampleRecord"
  by (simp_all add: handleMapLoaded_def sampleScreen_def initialScreen_def sampleDb_def
      sampleRecord_def idb_get_def)

text \<open>The statement for the sample screen, whose store holds the id already.\<close>

theorem readd_replaces_overlay_witness:
  "available (db (handleMapLoaded sampleScreen)) \<and>
   mapRef (handleMapLoaded sampleScreen) = Some loadedMap \<and>
   getHeader (overlayEnv sampleBrowser) (createObjectURL sampleBrowser [0x51]) \<noteq> None \<and>
   \<not> addSource_throws (overlayEnv sampleBrowser) \<and> \<not> addLayer_throws (overlayEnv sampleBrowser) \<and>
   \<not> fitBounds_throws (overlayEnv sampleBrowser) \<and>
   idb_get ro_id ''shikoku'' (overlay_store (db (handleMapLoaded sampleScreen))) = Some sampleRecord \<and>
   filter (\<lambda>r. ro_id r = stripPmtiles ''shikoku.pmtiles'')
     (overlay_store (db (handleAddOverlay sampleBrowser 1700000003000
                           (Some (''shikoku.pmtiles'', [0x51])) (handleMapLoaded sampleScreen)))) =
     [\<lparr>ro_id = stripPmtiles ''shikoku.pmtiles'', ro_filename = stripPmtiles ''shikoku.pmtiles'',
       ro_data = [0x51], ro_opacity = Some 0.8, ro_visible = Some True,
       ro_groupId = Some ''default'', ro_timestamp = Some 1700000003000, ro_url = None\<rparr>]"
proof -
  have h: "getHeader (overlayEnv sampleBrowser) (createObjectURL sampleBrowser [0x51]) \<noteq> None"
    by (simp add: sampleBrowser_facts)
  note t = readd_replaces_overlay [OF sampleScreen_loaded(1,2) h sampleBrowser_facts(2,3,4),
      where now = 1700000003000 and fname = "''shikoku.pmtiles''" and k = "''kyushu''"]
  from t sampleScreen_loaded h sampleBrowser_facts(2,3,4) show ?thesis by blast
qed

section \<open>The timeout of the bridge\<close>

lemma bridge_run_Cons: "bridge_run (e # es) b = bridge_run es (bridge_on e b)"
  and bridge_run_Nil: "bridge_run [] b = b"
  by (simp_all add: bridge_run_def)

lemma call_waiting:
  assumes "timers b = []"
  shows "waiting (length (promises b)) (clock b + 10000) (snd (bridge_addRasterOverlay oid url b))"
    and "fst (bridge_addRasterOverlay oid url b) = length (promises b)"
    and "clock (snd (bridge_addRasterOverlay oid url b)) = clock b"
  using assms
  by (simp_all add: bridge_addRasterOverlay_def waiting_def sendCommand_def Let_def nth_append)

lemma quiet_receive:
  assumes "\<not> is_overlayAdded msg"
  shows "overlayResolveRef (handleMessage msg b) = overlayResolveRef b"
    and "promises (handleMessage msg b) = promises b"
    and "timers (handleMessage msg b) = timers b"
    and "clock (handleMessage msg b) = clock b"
  using assms by (cases msg; simp)+

lemma elapse_before:
  assumes "waiting p due b" "clock b + d < due"
  shows "waiting p due (elapse d b)" and "clock (elapse d b) = clock b + d"
  using assms by (simp_all add: waiting_def elapse_def Let_def)

lemma elapse_at:
  assumes "waiting p due b" "due \<le> clock b + d"
  shows "timed_out p (elapse d b)"
  using assms by (simp add: waiting_def timed_out_def elapse_def Let_def onTimeout_def resolve_def)

lemma elapse_after:
  assumes "timed_out p b"
  shows "timed_out p (elapse d b)"
  using assms by (simp add: timed_out_def elapse_def Let_def)

lemma quiet_timed_out:
  assumes "timed_out p b" "quiet e"
  shows "timed_out p (bridge_on e b)"
proof (cases e)
  case (Call oid url)
  then show ?thesis using assms(2) by simp
next
  case (Elapse d)
  then show ?thesis using assms(1) by (simp add: elapse_after)
next
  case (Receive msg)
  then have "\<not> is_overlayAdded msg" using assms(2) by simp
  then show ?thesis using assms(1) Receive by (simp add: timed_out_def quiet_receive)
qed

lemma quiet_run_timed_out:
  assumes "timed_out p b" "\<forall>e \<in> set es. quiet e"
  shows "timed_out p (bridge_run es b)"
  using assms by (induction es arbitrary: b) (simp_all add: bridge_run_Cons bridge_run_Nil quiet_timed_out)

lemma quiet_run_waiting:
  assumes "waiting p due b" "\<forall>e \<in> set es. quiet e"
  shows "(clock b + elapsed es < due \<longrightarrow> waiting p due (bridge_run es b)) \<and>
         (due \<le> clock b + elapsed es \<longrightarrow> timed_out p (bridge_run es b))"
  using assms
proof (induction es arbitrary: b)
  case Nil
  then show ?case by (simp add: bridge_run_Nil waiting_def)
next
  case (Cons e es)
  then have q: "quiet e" and qs: "\<forall>e \<in> set es. quiet e" by simp_all
  show ?case
  proof (cases e)
    case (Call oid url)
    then show ?thesis using q by simp
  next
    case (Receive msg)
    then have n: "\<not> is_overlayAdded msg" using q by simp
    have w: "waiting p due (handleMessage msg b)"
      using Cons.prems(1) by (simp add: waiting_def quiet_receive [OF n])
    have c: "clock (handleMessage msg b) = clock b" by (rule quiet_receive(4) [OF n])
    show ?thesis
      using Cons.IH [OF w qs] by (simp add: Receive bridge_run_Cons c)
  next
    case (Elapse d)
    show ?thesis
    proof (cases "clock b + d < due")
      case True
      note w = elapse_before [OF Cons.prems(1) True]
      show ?thesis
        using Cons.IH [OF w(1) qs] by (simp add: Elapse bridge_run_Cons w(2) add.assoc)
    next
      case False
      then have "due \<le> clock b + d" by simp
      with Cons.prems(1) have t: "timed_out p (elapse d b)"
        by (rule elapse_at)
      have "timed_out p (bridge_run es (elapse d b))"
        by (rule quiet_run_timed_out [OF t qs])
      then show ?thesis using False by (simp add: Elapse bridge_run_Cons)
    qed
  qed
qed

text \<open>A resolved promise keeps its value, whatever happens.\<close>

lemma resolve_keeps:
  assumes "p < length (promises b)" "promises b ! p = Some v"
  shows "p < length (promises (resolve q w b))" "promises (resolve q w b) ! p = Some v"
  using assms by (auto simp: resolve_def nth_list_update)

lemma onTimeout_keeps:
  assumes "p < length (promises b)" "promises b ! p = Some v"
  shows "p < length (promises (onTimeout q b)) \<and> promises (onTimeout q b) ! p = Some v"
  using assms resolve_keeps [of p "b\<lparr>overlayResolveRef := None\<rparr>" v q None]
  by (simp add: onTimeout_def)

lemma fold_onTimeout_keeps:
  assumes "p < length (promises b)" "promises b ! p = Some v"
  shows "p < length (promises (foldl (\<lambda>b' (t', q). onTimeout q b') b ts)) \<and>
         promises (foldl (\<lambda>b' (t', q). onTimeout q b') b ts) ! p = Some v"
  using assms
proof (induction ts arbitrary: b)
  case Nil
  then show ?case by simp
next
  case (Cons t ts)
  obtain t' q where t: "t = (t', q)" by (cases t)
  from onTimeout_keeps [OF Cons.prems, of q]
  show ?case by (simp add: t Cons.IH)
qed

lemma bridge_on_keeps:
  assumes "p < length (promises b)" "promises b ! p = Some v"
  shows "p < length (promises (bridge_on e b)) \<and> promises (bridge_on e b) ! p = Some v"
proof (cases e)
  case (Call oid url)
  then show ?thesis
    using assms by (simp add: bridge_addRasterOverlay_def sendCommand_def Let_def nth_append)
next
  case (Elapse d)
  have "p < length (promises (b\<lparr>clock := clock b + d, timers := filter (\<lambda>(t', p). clock b + d < t') (timers b)\<rparr>))"
    "promises (b\<lparr>clock := clock b + d, timers := filter (\<lambda>(t', p). clock b + d < t') (timers b)\<rparr>) ! p = Some v"
    using assms by simp_all
  from fold_onTimeout_keeps [OF this]
  show ?thesis by (simp add: Elapse elapse_def Let_def)
next
  case (Receive msg)
  show ?thesis
  proof (cases msg)
    case (OverlayAdded info)
    then show ?thesis
      using assms resolve_keeps [OF assms]
      by (simp add: Receive split: option.splits)
  qed (use assms Receive in simp_all)
qed

lemma bridge_run_keeps:
  assumes "p < length (promises b)" "promises b ! p = Some v"
  shows "promises (bridge_run es b) ! p = Some v"
  using assms
proof (induction es arbitrary: b)
  case Nil
  then show ?case by (simp add: bridge_run_Nil)
next
  case (Cons e es)
  from bridge_on_keeps [OF Cons.prems, of e] Cons.IH
  show ?case by (simp add: bridge_run_Cons)
qed

text \<open>
  A call that no other call overlaps times out as the comment \<^verbatim>\<open>// Timeout after 10s\<close>
  says. Take a call made while no timer of an earlier call is pending, and let only
  quiet events follow: time passes, messages other than \<^verbatim>\<open>overlayAdded\<close> arrive, no
  further call is made. While less than 10 s have passed the promise is pending; once
  10 s have passed it is resolved with \<^verbatim>\<open>null\<close>. From then on an \<^verbatim>\<open>overlayAdded\<close>
  message leaves the host as it is, and whatever happens later, the promise keeps the
  value \<^verbatim>\<open>null\<close>.
\<close>

theorem bridge_timeout_single_call:
  assumes "timers b = []" and "\<forall>e \<in> set es. quiet e"
  shows
    "(elapsed es < 10000 \<longrightarrow>
        promises (bridge_run es (snd (bridge_addRasterOverlay oid url b)))
          ! fst (bridge_addRasterOverlay oid url b) = None) \<and>
     (10000 \<le> elapsed es \<longrightarrow>
        promises (bridge_run es (snd (bridge_addRasterOverlay oid url b)))
          ! fst (bridge_addRasterOverlay oid url b) = Some None \<and>
        handleMessage (OverlayAdded info) (bridge_run es (snd (bridge_addRasterOverlay oid url b)))
          = bridge_run es (snd (bridge_addRasterOverlay oid url b)) \<and>
        promises (bridge_run later (bridge_run es (snd (bridge_addRasterOverlay oid url b))))
          ! fst (bridge_addRasterOverlay oid url b) = Some None)"
proof -
  let ?p = "length (promises b)"
  let ?b1 = "snd (bridge_addRasterOverlay oid url b)"
  let ?b2 = "bridge_run es ?b1"
  note c = call_waiting [OF assms(1), of oid url]
  note r = quiet_run_waiting [OF c(1) assms(2), unfolded c(3)]
  have a: "promises ?b2 ! ?p = None" if "elapsed es < 10000"
    using r that by (simp add: waiting_def)
  have t: "timed_out ?p ?b2" if "10000 \<le> elapsed es"
    using r that by simp
  have b1: "promises ?b2 ! ?p = Some None" if "10000 \<le> elapsed es"
    using t [OF that] by (simp add: timed_out_def)
  have b2: "handleMessage (OverlayAdded info) ?b2 = ?b2" if "10000 \<le> elapsed es"
    using t [OF that] by (simp add: timed_out_def)
  have b3: "promises (bridge_run later ?b2) ! ?p = Some None" if "10000 \<le> elapsed es"
    using t [OF that]
    by (intro bridge_run_keeps [where b = "?b2" and es = later]) (simp_all add: timed_out_def)
  show ?thesis
    unfolding c(2) using a b1 b2 b3 by blast
qed

lemma overlapping_run:
  "promises (bridge_run overlappingCalls (newBridge True True True)) = [Some None, None]"
  "clock (bridge_run overlappingCalls (newBridge True True True)) = 115000"
  "timers (bridge_run overlappingCalls (newBridge True True True)) = []"
  by (simp_all add: overlappingCalls_def bridge_run_def newBridge_def bridge_addRasterOverlay_def
      sendCommand_def elapse_def onTimeout_def resolve_def Let_def)

lemma late_run:
  "promises (bridge_run lateResponse (newBridge True True True)) = [Some None, Some (Some sampleInfo)]"
  by (simp add: lateResponse_def bridge_run_def newBridge_def bridge_addRasterOverlay_def
      sendCommand_def elapse_def onTimeout_def resolve_def Let_def)

text \<open>
  C3. The code does not keep the timeout that the claim states and that its own comment
  \<^verbatim>\<open>// Timeout after 10s\<close> announces, since all calls share the one slot
  \<^verbatim>\<open>overlayResolveRef\<close> and a response carries no mark of its call. In the run
  \<open>overlappingCalls\<close> a second call is made 5 s after the first and no response ever
  arrives: the timer of the first call empties the slot that holds the resolver of the
  second, so 110 s after the second call its promise is still pending and no timer is
  left that could resolve it. In the run \<open>lateResponse\<close> the first call times out at
  10 s, a second call is made at 10.5 s and the response to the first arrives at 11 s:
  it is not ignored but resolves the promise of the second call, with the descriptor of
  the first.
\<close>

theorem overlapping_call_stays_pending:
  "promises (bridge_run overlappingCalls (newBridge True True True)) = [Some None, None] \<and>
   clock (bridge_run overlappingCalls (newBridge True True True)) = 115000 \<and>
   timers (bridge_run overlappingCalls (newBridge True True True)) = [] \<and>
   promises (bridge_run lateResponse (newBridge True True True)) =
     [Some None, Some (Some sampleInfo)]"
  using overlapping_run late_run by simp

text \<open>
  The timeout of a call without overlap, for a call on a fresh host with a response that
  comes 1 s late.
\<close>

theorem bridge_timeout_single_call_witness:
  "timers (newBridge True True True) = [] \<and>
   quiet (Elapse 4000) \<and> quiet (Receive MapLoaded) \<and> quiet (Elapse 6000) \<and>
   (10000::nat) \<le> elapsed [Elapse 4000, Receive MapLoaded, Elapse 6000] \<and>
   promises (bridge_run [Elapse 4000, Receive MapLoaded, Elapse 6000]
               (snd (bridge_addRasterOverlay ''a'' ''blob:a'' (newBridge True True True))))
     ! fst (bridge_addRasterOverlay ''a'' ''blob:a'' (newBridge True True True)) = Some None \<and>
   promises (bridge_run [Elapse 1000, Receive (OverlayAdded (Some sampleInfo))]
               (bridge_run [Elapse 4000, Receive MapLoaded, Elapse 6000]
                  (snd (bridge_addRasterOverlay ''a'' ''blob:a'' (newBridge True True True)))))
     ! fst (bridge_addRasterOverlay ''a'' ''blob:a'' (newBridge True True True)) = Some None"
proof -
  have t: "timers (newBridge True True True) = []" by (simp add: newBridge_def)
  have q: "\<forall>e \<in> set [Elapse 4000, Receive MapLoaded, Elapse 6000]. quiet e" by simp
  have e: "(10000::nat) \<le> elapsed [Elapse 4000, Receive MapLoaded, Elapse 6000]" by simp
  have q': "quiet (Elapse 4000) \<and> quiet (Receive MapLoaded) \<and> quiet (Elapse 6000)" by simp
  from bridge_timeout_single_call [OF t q, where oid = "''a''" and url = "''blob:a''"
      and later = "[Elapse 1000, Receive (OverlayAdded (Some sampleInfo))]"] e t q'
  show ?thesis by blast
qed

section \<open>Host and page: the bridged addRasterOverlay\<close>

lemma waiting_core: "bridge_core b' = bridge_core b \<Longrightarrow> waiting p due b' = waiting p due b"
  and timed_out_core: "bridge_core b' = bridge_core b \<Longrightarrow> timed_out p b' = timed_out p b"
  and null_or_pending_core: "bridge_core b' = bridge_core b \<Longrightarrow> null_or_pending b' = null_or_pending b"
  by (simp_all add: bridge_core_def waiting_def timed_out_def null_or_pending_def)

lemma posted_handleCommand: "posted (handleCommand c pg) = posted pg"
  by (cases c)
    (simp_all add: updateUserLocation_def setLocationLayersVisibility_def page_setTileSource_def
      split: option.splits)

lemma posted_commands:
  "posted (foldl (\<lambda>pg' c. handleCommand c pg') pg cs) = posted pg"
  by (induction cs arbitrary: pg) (simp_all add: posted_handleCommand)

lemma posted_page_on:
  assumes "posted pg = []"
  shows "\<forall>m \<in> set (posted (page_on ev pg)). \<not> is_overlayAdded m"
  using assms
  by (cases ev) (auto simp: postMessage_def Let_def split_def)

lemma core_handleMessage:
  "\<not> is_overlayAdded m \<Longrightarrow> bridge_core (handleMessage m b) = bridge_core b"
  by (cases m) (simp_all add: bridge_core_def)

lemma core_messages:
  "\<forall>m \<in> set ms. \<not> is_overlayAdded m \<Longrightarrow>
   bridge_core (foldl (\<lambda>b' m. handleMessage m b') b ms) = bridge_core b"
  by (induction ms arbitrary: b) (simp_all add: core_handleMessage)

lemma deliver_quiet:
  assumes "\<forall>m \<in> set (posted (webview s)). \<not> is_overlayAdded m"
  shows "bridge_core (host (deliver s)) = bridge_core (host s)"
    and "posted (webview (deliver s)) = []"
proof -
  have "bridge_core (host (deliver s)) = bridge_core ((host s)\<lparr>injected := []\<rparr>)"
    using assms by (simp add: deliver_def Let_def core_messages posted_commands)
  then show "bridge_core (host (deliver s)) = bridge_core (host s)"
    by (simp add: bridge_core_def)
  show "posted (webview (deliver s)) = []"
    by (simp add: deliver_def Let_def)
qed

lemma core_sendCommand [simp]: "bridge_core (sendCommand c b) = bridge_core b"
  by (simp add: sendCommand_def bridge_core_def)

lemma bridged_on_other:
  assumes "posted (webview s) = []" "\<not> is_add e" "\<forall>d. e \<noteq> TimePasses d"
  shows "bridge_core (host (bridged_on e s)) = bridge_core (host s)"
    and "posted (webview (bridged_on e s)) = []"
proof -
  have "bridge_core (host (bridged_on e s)) = bridge_core (host s) \<and>
        posted (webview (bridged_on e s)) = []"
  proof (cases e)
    case (InPage ev)
    have q: "\<forall>m \<in> set (posted (webview (s\<lparr>webview := page_on ev (webview s)\<rparr>))). \<not> is_overlayAdded m"
      using posted_page_on [OF assms(1), of ev] by simp
    from deliver_quiet [OF q] show ?thesis by (simp add: InPage)
  next
    case (HandleAddRasterOverlay oid url)
    then show ?thesis using assms(2) by simp
  next
    case (TimePasses d)
    then show ?thesis using assms(3) by simp
  next
    case (HandleUpdateLocation lng lat a)
    have q: "\<forall>m \<in> set (posted (webview (s\<lparr>host := bridge_updateLocation lng lat a (host s)\<rparr>))). \<not> is_overlayAdded m"
      using assms(1) by simp
    from deliver_quiet [OF q] show ?thesis
      by (simp add: HandleUpdateLocation bridge_updateLocation_def)
  next
    case (HandleFlyToLocation lng lat z)
    have q: "\<forall>m \<in> set (posted (webview (s\<lparr>host := bridge_flyToLocation lng lat z (host s)\<rparr>))). \<not> is_overlayAdded m"
      using assms(1) by simp
    from deliver_quiet [OF q] show ?thesis
      by (simp add: HandleFlyToLocation bridge_flyToLocation_def)
  next
    case HandleHideLocation
    have q: "\<forall>m \<in> set (posted (webview (s\<lparr>host := bridge_hideLocation (host s)\<rparr>))). \<not> is_overlayAdded m"
      using assms(1) by simp
    from deliver_quiet [OF q] show ?thesis
      by (simp add: HandleHideLocation bridge_hideLocation_def)
  next
    case (HandleSetTileSource src)
    have q: "\<forall>m \<in> set (posted (webview (s\<lparr>host := bridge_setTileSource src (host s)\<rparr>))). \<not> is_overlayAdded m"
      using assms(1) by simp
    from deliver_quiet [OF q] show ?thesis
      by (simp add: HandleSetTileSource bridge_setTileSource_def)
  next
    case (HandleRemoveRasterOverlay oid)
    have q: "\<forall>m \<in> set (posted (webview (s\<lparr>host := bridge_removeRasterOverlay oid (host s)\<rparr>))). \<not> is_overlayAdded m"
      using assms(1) by simp
    from deliver_quiet [OF q] show ?thesis
      by (simp add: HandleRemoveRasterOverlay bridge_removeRasterOverlay_def)
  next
    case (HandleSetOverlayOpacity oid x)
    have q: "\<forall>m \<in> set (posted (webview (s\<lparr>host := bridge_setOverlayOpacity oid x (host s)\<rparr>))). \<not> is_overlayAdded m"
      using assms(1) by simp
    from deliver_quiet [OF q] show ?thesis
      by (simp add: HandleSetOverlayOpacity bridge_setOverlayOpacity_def)
  qed
  then show "bridge_core (host (bridged_on e s)) = bridge_core (host s)"
    and "posted (webview (bridged_on e s)) = []" by simp_all
qed

lemma bridged_on_add:
  assumes "posted (webview s) = []"
  shows "bridge_core (host (bridged_on (HandleAddRasterOverlay oid url) s)) =
           bridge_core (snd (bridge_addRasterOverlay oid url (host s)))"
    and "posted (webview (bridged_on (HandleAddRasterOverlay oid url) s)) = []"
proof -
  have q: "\<forall>m \<in> set (posted (webview (s\<lparr>host := snd (bridge_addRasterOverlay oid url (host s))\<rparr>))).
             \<not> is_overlayAdded m"
    using assms by simp
  from deliver_quiet [OF q]
  show "bridge_core (host (bridged_on (HandleAddRasterOverlay oid url) s)) =
           bridge_core (snd (bridge_addRasterOverlay oid url (host s)))"
    and "posted (webview (bridged_on (HandleAddRasterOverlay oid url) s)) = []"
    by simp_all
qed

lemma bridged_on_time:
  "host (bridged_on (TimePasses d) s) = elapse d (host s)"
  "posted (webview (bridged_on (TimePasses d) s)) = posted (webview s)"
  by simp_all

lemma core_resolve:
  "bridge_core b = bridge_core b' \<Longrightarrow> bridge_core (resolve p v b) = bridge_core (resolve p v b')"
  by (auto simp: bridge_core_def resolve_def)

lemma core_onTimeout:
  "bridge_core b = bridge_core b' \<Longrightarrow> bridge_core (onTimeout p b) = bridge_core (onTimeout p b')"
  by (auto simp: bridge_core_def onTimeout_def resolve_def)

lemma core_fold_onTimeout:
  "bridge_core b = bridge_core b' \<Longrightarrow>
   bridge_core (foldl (\<lambda>b' (t', q). onTimeout q b') b ts) =
   bridge_core (foldl (\<lambda>b' (t', q). onTimeout q b') b' ts)"
proof (induction ts arbitrary: b b')
  case Nil
  then show ?case by simp
next
  case (Cons t ts)
  obtain t' q where t: "t = (t', q)" by (cases t)
  show ?case
    unfolding t using Cons.IH [OF core_onTimeout [OF Cons.prems, of q]] by simp
qed

lemma core_elapse:
  assumes "bridge_core b = bridge_core b'"
  shows "bridge_core (elapse d b) = bridge_core (elapse d b')"
proof -
  from assms have e: "clock b = clock b'" "timers b = timers b'"
    by (simp_all add: bridge_core_def)
  have "bridge_core (b\<lparr>clock := clock b + d, timers := filter (\<lambda>(t', p). clock b + d < t') (timers b)\<rparr>) =
        bridge_core (b'\<lparr>clock := clock b' + d, timers := filter (\<lambda>(t', p). clock b' + d < t') (timers b')\<rparr>)"
    using assms by (simp add: bridge_core_def)
  from core_fold_onTimeout [OF this]
  show ?thesis by (simp add: elapse_def Let_def e)
qed

lemma core_call:
  assumes "bridge_core b = bridge_core b'"
  shows "bridge_core (snd (bridge_addRasterOverlay oid url b)) =
         bridge_core (snd (bridge_addRasterOverlay oid url b'))"
  using assms by (simp add: bridge_core_def bridge_addRasterOverlay_def sendCommand_def Let_def)

lemma host_view_step:
  assumes "posted (webview s) = []" "bridge_core (host s) = bridge_core b"
  shows "bridge_core (host (bridged_on e s)) = bridge_core (bridge_run (host_view e) b)"
    and "posted (webview (bridged_on e s)) = []"
proof -
  have "bridge_core (host (bridged_on e s)) = bridge_core (bridge_run (host_view e) b) \<and>
        posted (webview (bridged_on e s)) = []"
  proof (cases "is_add e \<or> (\<exists>d. e = TimePasses d)")
    case False
    then have v: "host_view e = []" by (cases e) simp_all
    from False bridged_on_other [OF assms(1), of e] assms(2)
    show ?thesis by (simp add: v bridge_run_Nil)
  next
    case True
    then show ?thesis
    proof
      assume "is_add e"
      then obtain oid url where e: "e = HandleAddRasterOverlay oid url" by (cases e) simp_all
      from bridged_on_add [OF assms(1), of oid url] core_call [OF assms(2), of oid url]
      show ?thesis by (simp add: e bridge_run_def)
    next
      assume "\<exists>d. e = TimePasses d"
      then obtain d where e: "e = TimePasses d" by blast
      from core_elapse [OF assms(2), of d] assms(1)
      show ?thesis by (simp add: e bridge_run_def)
    qed
  qed
  then show "bridge_core (host (bridged_on e s)) = bridge_core (bridge_run (host_view e) b)"
    and "posted (webview (bridged_on e s)) = []" by simp_all
qed

lemma bridge_run_append: "bridge_run (xs @ ys) b = bridge_run ys (bridge_run xs b)"
  by (simp add: bridge_run_def)

lemma bridged_run_Cons: "bridged_run (e # es) s = bridged_run es (bridged_on e s)"
  by (simp add: bridged_run_def)

lemma host_view_run:
  assumes "posted (webview s) = []" "bridge_core (host s) = bridge_core b"
  shows "bridge_core (host (bridged_run es s)) = bridge_core (bridge_run (concat (map host_view es)) b)"
  using assms
proof (induction es arbitrary: s b)
  case Nil
  then show ?case by (simp add: bridged_run_def bridge_run_def)
next
  case (Cons e es)
  note st = host_view_step [OF Cons.prems, of e]
  from Cons.IH [OF st(2) st(1)]
  show ?case by (simp add: bridged_run_Cons bridge_run_append)
qed

lemma view_quiet:
  "\<forall>e \<in> set es. \<not> is_add e \<Longrightarrow> \<forall>e \<in> set (concat (map host_view es)). quiet e"
proof (induction es)
  case Nil
  then show ?case by simp
next
  case (Cons e es)
  then show ?case by (cases e) simp_all
qed

lemma view_elapsed: "elapsed (concat (map host_view es)) = time_passed es"
proof (induction es)
  case Nil
  then show ?case by simp
next
  case (Cons e es)
  then show ?case by (cases e) simp_all
qed

lemma view_no_receive: "\<forall>e \<in> set (concat (map host_view es)). \<forall>m. e \<noteq> Receive m"
proof (induction es)
  case Nil
  then show ?case by simp
next
  case (Cons e es)
  then show ?case by (cases e) simp_all
qed

text \<open>Without an \<^verbatim>\<open>overlayAdded\<close> message no promise gets a descriptor.\<close>

lemma nop_resolve: "null_or_pending b \<Longrightarrow> null_or_pending (resolve p None b)"
  unfolding null_or_pending_def resolve_def list_all_iff
  by (auto dest!: set_update_subset_insert [THEN subsetD])

lemma nop_onTimeout: "null_or_pending b \<Longrightarrow> null_or_pending (onTimeout p b)"
  using nop_resolve [of "b\<lparr>overlayResolveRef := None\<rparr>" p]
  by (simp add: onTimeout_def null_or_pending_def)

lemma nop_fold_onTimeout:
  "null_or_pending b \<Longrightarrow> null_or_pending (foldl (\<lambda>b' (t', q). onTimeout q b') b ts)"
proof (induction ts arbitrary: b)
  case Nil
  then show ?case by simp
next
  case (Cons t ts)
  obtain t' q where t: "t = (t', q)" by (cases t)
  show ?case unfolding t using Cons.IH [OF nop_onTimeout [OF Cons.prems, of q]] by simp
qed

lemma nop_elapse: "null_or_pending b \<Longrightarrow> null_or_pending (elapse d b)"
proof -
  assume "null_or_pending b"
  then have "null_or_pending (b\<lparr>clock := clock b + d, timers := filter (\<lambda>(t', p). clock b + d < t') (timers b)\<rparr>)"
    by (simp add: null_or_pending_def)
  from nop_fold_onTimeout [OF this] show ?thesis by (simp add: elapse_def Let_def)
qed

lemma nop_call: "null_or_pending b \<Longrightarrow> null_or_pending (snd (bridge_addRasterOverlay oid url b))"
  by (simp add: null_or_pending_def bridge_addRasterOverlay_def sendCommand_def Let_def)

lemma nop_run:
  assumes "null_or_pending b" "\<forall>e \<in> set es. \<forall>m. e \<noteq> Receive m"
  shows "null_or_pending (bridge_run es b)"
  using assms
proof (induction es arbitrary: b)
  case Nil
  then show ?case by (simp add: bridge_run_Nil)
next
  case (Cons e es)
  have "null_or_pending (bridge_on e b)"
  proof (cases e)
    case (Call oid url)
    then show ?thesis using Cons.prems(1) by (simp add: nop_call)
  next
    case (Elapse d)
    then show ?thesis using Cons.prems(1) by (simp add: nop_elapse)
  next
    case (Receive m)
    then show ?thesis using Cons.prems(2) by simp
  qed
  then show ?case using Cons by (simp add: bridge_run_Cons)
qed

text \<open>
  What holds of the bridged control. The page's \<open>handleCommand\<close> leaves the page as it
  is on an \<^verbatim>\<open>addRasterOverlay\<close> command, no command makes the page post a message, and
  the page's own events post only \<^verbatim>\<open>mapLoaded\<close> and \<^verbatim>\<open>mapMoved\<close>. So in every run of
  host and page no promise is ever resolved with a descriptor; and a call made while no
  timer of an earlier call is pending, followed by no further call, is resolved with
  \<^verbatim>\<open>null\<close> once 10 s have passed.
\<close>

theorem bridged_addRasterOverlay_resolves_null:
  assumes "posted (webview s) = []"
  shows
    "handleCommand (AddRasterOverlay oid url) pg = pg \<and>
     posted (handleCommand c pg) = posted pg \<and>
     (posted pg = [] \<longrightarrow> (\<forall>m \<in> set (posted (page_on ev pg)). \<not> is_overlayAdded m)) \<and>
     (null_or_pending (host s) \<longrightarrow> null_or_pending (host (bridged_run es s))) \<and>
     (timers (host s) = [] \<and> (\<forall>e \<in> set es. \<not> is_add e) \<and> 10000 \<le> time_passed es \<longrightarrow>
        promises (host (bridged_run es (bridged_on (HandleAddRasterOverlay oid url) s)))
          ! fst (bridge_addRasterOverlay oid url (host s)) = Some None)"
proof (intro conjI impI)
  show "handleCommand (AddRasterOverlay oid url) pg = pg" by simp
  show "posted (handleCommand c pg) = posted pg" by (rule posted_handleCommand)
  show "\<forall>m \<in> set (posted (page_on ev pg)). \<not> is_overlayAdded m" if "posted pg = []"
    using that by (rule posted_page_on)
next
  assume n: "null_or_pending (host s)"
  have "null_or_pending (bridge_run (concat (map host_view es)) (host s))"
    using n view_no_receive by (rule nop_run)
  then show "null_or_pending (host (bridged_run es s))"
    by (simp only: null_or_pending_core [OF host_view_run [OF assms refl, of es]])
next
  assume a: "timers (host s) = [] \<and> (\<forall>e \<in> set es. \<not> is_add e) \<and> 10000 \<le> time_passed es"
  let ?p = "length (promises (host s))"
  let ?b1 = "snd (bridge_addRasterOverlay oid url (host s))"
  let ?s1 = "bridged_on (HandleAddRasterOverlay oid url) s"
  note c = call_waiting [of "host s" oid url]
  note add = bridged_on_add [OF assms, of oid url]
  have sim: "bridge_core (host (bridged_run es ?s1)) =
             bridge_core (bridge_run (concat (map host_view es)) ?b1)"
    by (rule host_view_run [OF add(2) add(1)])
  have q: "\<forall>e \<in> set (concat (map host_view es)). quiet e"
    using a by (intro view_quiet) simp
  have w: "waiting ?p (clock (host s) + 10000) ?b1" using a by (intro c(1)) simp
  have cl: "clock ?b1 = clock (host s)" using a by (intro c(3)) simp
  from quiet_run_waiting [OF w q] a
  have "timed_out ?p (bridge_run (concat (map host_view es)) ?b1)"
    by (simp add: cl view_elapsed)
  then have "timed_out ?p (host (bridged_run es ?s1))"
    by (simp only: timed_out_core [OF sim])
  then show "promises (host (bridged_run es ?s1)) ! fst (bridge_addRasterOverlay oid url (host s)) = Some None"
    using a by (simp add: c(2) timed_out_def)
qed

lemma newBridged_facts:
  "posted (webview newBridged) = []" "timers (host newBridged) = []"
  "null_or_pending (host newBridged)" "promises (host newBridged) = []"
  by (simp_all add: newBridged_def newPage_def newBridge_def null_or_pending_def)

text \<open>The statement for a call on the fresh host and page, the page loading meanwhile.\<close>

theorem bridged_addRasterOverlay_resolves_null_witness:
  "posted (webview newBridged) = [] \<and> null_or_pending (host newBridged) \<and>
   timers (host newBridged) = [] \<and>
   \<not> is_add (InPage PageLoad) \<and> \<not> is_add (TimePasses 10000) \<and>
   (10000::nat) \<le> time_passed [InPage PageLoad, TimePasses 10000] \<and>
   promises (host (bridged_run [InPage PageLoad, TimePasses 10000]
                     (bridged_on (HandleAddRasterOverlay ''a'' ''blob:a'') newBridged)))
     ! fst (bridge_addRasterOverlay ''a'' ''blob:a'' (host newBridged)) = Some None"
proof -
  have q: "\<forall>e \<in> set [InPage PageLoad, TimePasses 10000]. \<not> is_add e" by simp
  have e: "(10000::nat) \<le> time_passed [InPage PageLoad, TimePasses 10000]" by simp
  from bridged_addRasterOverlay_resolves_null [OF newBridged_facts(1),
      where es = "[InPage PageLoad, TimePasses 10000]" and oid = "''a''" and url = "''blob:a''"]
    newBridged_facts e
  have "promises (host (bridged_run [InPage PageLoad, TimePasses 10000]
                     (bridged_on (HandleAddRasterOverlay ''a'' ''blob:a'') newBridged)))
     ! fst (bridge_addRasterOverlay ''a'' ''blob:a'' (host newBridged)) = Some None"
    using q by blast
  then show ?thesis using newBridged_facts e by simp
qed

lemma two_calls_view:
  "concat (map host_view twoBridgedCalls) =
     [Call ''a'' ''blob:a'', Elapse 3000, Call ''b'' ''blob:b'', Elapse 7000, Elapse 3000, Elapse 60000]"
  by (simp add: twoBridgedCalls_def)

text \<open>
  C10. The page never answers an \<^verbatim>\<open>addRasterOverlay\<close> command, so every call has to be
  resolved by its timer, and the code does not do that for a call that overlaps another.
  In the run \<open>twoBridgedCalls\<close> the page loads and two calls are made 3 s apart: the
  timer of the first call resolves the first promise with \<^verbatim>\<open>null\<close> and empties the slot
  \<^verbatim>\<open>overlayResolveRef\<close>, which by then holds the resolver of the second call. The timer
  of the second call finds the slot empty, so 70 s after the second call its promise is
  still pending and no timer is left that could resolve it: the call does not resolve to
  \<^verbatim>\<open>null\<close>, against the claim and against the comment \<^verbatim>\<open>// Timeout after 10s\<close>.
\<close>

theorem second_bridged_call_stays_pending:
  "promises (host (bridged_run twoBridgedCalls newBridged)) = [Some None, None] \<and>
   clock (host (bridged_run twoBridgedCalls newBridged)) = 73000 \<and>
   timers (host (bridged_run twoBridgedCalls newBridged)) = []"
proof -
  have "bridge_core (host (bridged_run twoBridgedCalls newBridged)) =
        bridge_core (bridge_run (concat (map host_view twoBridgedCalls)) (host newBridged))"
    by (rule host_view_run [OF newBridged_facts(1) refl])
  also have "\<dots> = (None, [Some None, None], [], 73000)"
    unfolding two_calls_view
    by (simp add: bridge_core_def newBridged_def bridge_run_def newBridge_def
        bridge_addRasterOverlay_def sendCommand_def elapse_def onTimeout_def resolve_def Let_def)
  finally show ?thesis by (simp add: bridge_core_def)
qed

end
